theory Spec2Isabelle
  imports Complex_Main
begin

section \<open>The array library underneath\<close>

text \<open>
  \<open>qcodes/data/data_array.py\<close> keeps its values in a numpy array and calls a handful of
  numpy functions on it. This section models the part of numpy that the class uses: an
  array is its element type (dtype), its shape and its elements in row-major order; an
  element is a value, the not-a-number sentinel that \<open>clear\<close> writes, or the unspecified
  content of a freshly allocated array. The type of the values is left open. Python's
  integers are \<open>int\<close>; every exception is a value of \<open>error\<close>.
\<close>

datatype error =
  RuntimeError | TypeError | ValueError | IndexError | AttributeError | ZeroDivisionError
  | OverflowError

datatype 'a cell = Uninit | NaN | Val 'a

text \<open>
  The element type of an array: \<open>float64\<close>, which is what \<open>np.ndarray(shape)\<close> allocates
  and what \<open>float\<close> names, or any other, by its name.
\<close>

datatype dtype = Float64 | Other string

record 'a ndarray =
  ndtype :: dtype
  nshape :: "nat list"
  ndata :: "'a cell list"

text \<open>
  numpy converts every value that is stored in an array to the element type of that
  array: the stored element may differ from the given one (an integer above \<open>2 ^ 53\<close> is
  rounded in a \<open>float64\<close> array), and the conversion may raise (text that spells no
  number has no \<open>float64\<close>). What it does depends on whether the value is a scalar object
  or an element of an array of some element type, on the element type of the target, and
  on the value. The rules of numpy are not part of the class: the conversion is a
  parameter \<open>conv\<close> of every function that stores or converts elements, and nothing is
  assumed of it but what a statement says.
\<close>

datatype source = FromScalar | FromArray dtype

type_synonym 'a conversion = "source \<Rightarrow> dtype \<Rightarrow> 'a cell \<Rightarrow> error + 'a cell"

text \<open>
  The conversion of the elements of a list, one after the other, up to the first that
  raises.
\<close>

fun convert_all :: "('a cell \<Rightarrow> error + 'a cell) \<Rightarrow> 'a cell list \<Rightarrow> error + 'a cell list" where
  "convert_all f [] = Inr []"
| "convert_all f (v # vs) =
     (case f v of
        Inl e \<Rightarrow> Inl e
      | Inr w \<Rightarrow> (case convert_all f vs of Inl e \<Rightarrow> Inl e | Inr ws \<Rightarrow> Inr (w # ws)))"

text \<open>\<open>ndarray.size\<close>: the number of elements that the shape announces.\<close>

definition nd_size :: "'a ndarray \<Rightarrow> nat" where
  "nd_size b = prod_list (nshape b)"

text \<open>A numpy array always holds as many elements as its shape announces.\<close>

definition nd_wf :: "'a ndarray \<Rightarrow> bool" where
  "nd_wf b = (length (ndata b) = nd_size b)"

text \<open>
  \<open>np.ndarray(shape)\<close>: a new \<open>float64\<close> array of unspecified content; a negative dimension
  raises.
\<close>

definition np_ndarray :: "int list \<Rightarrow> error + 'a ndarray" where
  "np_ndarray sh =
     (if list_ex (\<lambda>d. d < 0) sh then Inl ValueError
      else Inr \<lparr>ndtype = Float64, nshape = map nat sh,
                ndata = replicate (prod_list (map nat sh)) Uninit\<rparr>)"

text \<open>\<open>ndarray.fill(v)\<close>.\<close>

definition nd_fill :: "'a cell \<Rightarrow> 'a ndarray \<Rightarrow> 'a ndarray" where
  "nd_fill v b = b\<lparr>ndata := map (\<lambda>_. v) (ndata b)\<rparr>"

text \<open>\<open>ndarray.astype(float)\<close>: a new \<open>float64\<close> array of the converted elements.\<close>

definition astype_float :: "'a conversion \<Rightarrow> 'a ndarray \<Rightarrow> error + 'a ndarray" where
  "astype_float conv b =
     (case convert_all (conv (FromArray (ndtype b)) Float64) (ndata b) of
        Inl e \<Rightarrow> Inl e
      | Inr ws \<Rightarrow> Inr (b\<lparr>ndtype := Float64, ndata := ws\<rparr>))"

subsection \<open>Indices and slices\<close>

text \<open>
  One entry of an index expression: an integer, or \<open>slice(start, stop, step)\<close> with each
  part optional.
\<close>

datatype index = Idx int | Slice "int option" "int option" "int option"

text \<open>
  \<open>slice.indices(len)\<close> as CPython computes it: a zero step and a negative length raise;
  a bound left out is the end of the range in the direction of the step; a negative
  bound counts from the end; every bound is clipped to the range.
\<close>

definition slice_indices ::
  "int option \<Rightarrow> int option \<Rightarrow> int option \<Rightarrow> int \<Rightarrow> error + (int \<times> int \<times> int)" where
  "slice_indices start stop step len =
     (let st = (case step of None \<Rightarrow> 1 | Some s \<Rightarrow> s) in
      if len < 0 then Inl ValueError
      else if st = 0 then Inl ValueError
      else
        let lower = (if st < 0 then - 1 else 0);
            upper = (if st < 0 then len - 1 else len);
            clip = (\<lambda>v. if v < 0 then max (v + len) lower else min v upper);
            s = (case start of None \<Rightarrow> (if st < 0 then upper else lower) | Some v \<Rightarrow> clip v);
            e = (case stop of None \<Rightarrow> (if st < 0 then lower else upper) | Some v \<Rightarrow> clip v)
        in Inr (s, e, st))"

text \<open>The number of positions a resolved slice visits, and the positions in visiting order.\<close>

definition slice_length :: "int \<Rightarrow> int \<Rightarrow> int \<Rightarrow> nat" where
  "slice_length start stop step =
     (if step < 0 then (if stop < start then nat ((start - stop - 1) div (- step) + 1) else 0)
      else (if start < stop then nat ((stop - start - 1) div step + 1) else 0))"

definition slice_positions :: "int \<Rightarrow> int \<Rightarrow> int \<Rightarrow> int list" where
  "slice_positions start stop step =
     map (\<lambda>k. start + int k * step) [0..<slice_length start stop step]"

subsection \<open>Flat indices\<close>

text \<open>
  \<open>np.ravel_multi_index(multi_index, dims)\<close> in its default mode: one index per
  dimension, each within its dimension, combined in row-major order.
\<close>

definition ravel_multi_index :: "int list \<Rightarrow> int list \<Rightarrow> error + int" where
  "ravel_multi_index multi_index dims =
     (if length multi_index \<noteq> length dims then Inl ValueError
      else if list_ex (\<lambda>(i, d). i < 0 \<or> d \<le> i) (zip multi_index dims) then Inl ValueError
      else Inr (foldl (\<lambda>acc (i, d). acc * d + i) 0 (zip multi_index dims)))"

text \<open>\<open>np.unravel_index(i, dims)\<close>: the multi-index of flat position \<open>i\<close>.\<close>

fun unravel :: "nat \<Rightarrow> nat list \<Rightarrow> nat list" where
  "unravel n [] = []"
| "unravel n (d # ds) = (n div prod_list ds) # unravel (n mod prod_list ds) ds"

definition unravel_index :: "int \<Rightarrow> nat list \<Rightarrow> error + nat list" where
  "unravel_index i dims =
     (if i < 0 \<or> int (prod_list dims) \<le> i then Inl ValueError
      else Inr (unravel (nat i) dims))"

text \<open>The place of a complete multi-index in the row-major element list.\<close>

fun nd_offset :: "nat list \<Rightarrow> nat list \<Rightarrow> nat" where
  "nd_offset (i # is) (d # ds) = i * prod_list ds + nd_offset is ds"
| "nd_offset _ _ = 0"

text \<open>
  Reading and writing one element through a complete multi-index of natural numbers, as
  \<open>unravel_index\<close> produces it. The value written is a scalar object; it is converted to
  the element type of the array.
\<close>

definition nd_getelem :: "'a ndarray \<Rightarrow> nat list \<Rightarrow> error + 'a cell" where
  "nd_getelem b idx =
     (if length idx \<noteq> length (nshape b) \<or> list_ex (\<lambda>(i, d). d \<le> i) (zip idx (nshape b))
           \<or> length (ndata b) \<le> nd_offset idx (nshape b)
      then Inl IndexError
      else Inr (ndata b ! nd_offset idx (nshape b)))"

definition nd_setelem ::
  "'a conversion \<Rightarrow> 'a ndarray \<Rightarrow> nat list \<Rightarrow> 'a cell \<Rightarrow> error + 'a ndarray" where
  "nd_setelem conv b idx v =
     (if length idx \<noteq> length (nshape b) \<or> list_ex (\<lambda>(i, d). d \<le> i) (zip idx (nshape b))
           \<or> length (ndata b) \<le> nd_offset idx (nshape b)
      then Inl IndexError
      else case conv FromScalar (ndtype b) v of
             Inl e \<Rightarrow> Inl e
           | Inr w \<Rightarrow> Inr (b\<lparr>ndata := (ndata b)[nd_offset idx (nshape b) := w]\<rparr>))"

subsection \<open>Assignment through an index expression\<close>

text \<open>
  A value to assign: a scalar object, or an array.
\<close>

datatype 'a npvalue = Item "'a cell" | Arr "'a ndarray"

definition value_shape :: "'a npvalue \<Rightarrow> nat list" where
  "value_shape val = (case val of Item v \<Rightarrow> [] | Arr d \<Rightarrow> nshape d)"

definition value_data :: "'a npvalue \<Rightarrow> 'a cell list" where
  "value_data val = (case val of Item v \<Rightarrow> [v] | Arr d \<Rightarrow> ndata d)"

text \<open>
  \<open>ndarray.__setitem__(indices, value)\<close> for integers and slices. Each addressed
  dimension selects positions: an integer selects one (a negative one counts from the end)
  and drops the dimension, a slice selects its positions and keeps the dimension; the
  dimensions not addressed are taken whole.
\<close>

fun nd_select :: "index list \<Rightarrow> nat list \<Rightarrow> error + (bool \<times> nat list) list" where
  "nd_select [] ds = Inr (map (\<lambda>d. (True, [0..<d])) ds)"
| "nd_select (x # xs) [] = Inl IndexError"
| "nd_select (Idx k # xs) (d # ds) =
     (if - int d \<le> k \<and> k < int d then
        (case nd_select xs ds of
           Inl e \<Rightarrow> Inl e
         | Inr r \<Rightarrow> Inr ((False, [nat (if k < 0 then k + int d else k)]) # r))
      else Inl IndexError)"
| "nd_select (Slice s e st # xs) (d # ds) =
     (case slice_indices s e st (int d) of
        Inl err \<Rightarrow> Inl err
      | Inr (start, stop, step) \<Rightarrow>
          (case nd_select xs ds of
             Inl e \<Rightarrow> Inl e
           | Inr r \<Rightarrow> Inr ((True, map nat (slice_positions start stop step)) # r)))"

text \<open>The flat positions of the selected region, in row-major order of the region.\<close>

fun nd_offsets :: "nat list list \<Rightarrow> nat list \<Rightarrow> nat list" where
  "nd_offsets (ps # pss) (d # ds) =
     concat (map (\<lambda>p. map (\<lambda>q. p * prod_list ds + q) (nd_offsets pss ds)) ps)"
| "nd_offsets _ _ = [0]"

text \<open>
  Broadcasting the elements of a value of shape \<open>vs\<close> to a region of shape \<open>ts\<close> with as
  many dimensions: a dimension of the value either agrees with the region's or is 1 and
  is repeated.
\<close>

definition chunks :: "nat \<Rightarrow> nat \<Rightarrow> 'b list \<Rightarrow> 'b list list" where
  "chunks n k xs = map (\<lambda>i. take n (drop (i * n) xs)) [0..<k]"

fun broadcast :: "nat list \<Rightarrow> nat list \<Rightarrow> 'b list \<Rightarrow> 'b list option" where
  "broadcast [] [] xs = Some xs"
| "broadcast (v # vs) (t # ts) xs =
     (if v = t then
        map_option concat (those (map (broadcast vs ts) (chunks (prod_list vs) v xs)))
      else if v = 1 then map_option (\<lambda>r. concat (replicate t r)) (broadcast vs ts xs)
      else None)"
| "broadcast _ _ _ = None"

text \<open>
  A value with fewer dimensions than the region is padded with dimensions of 1 on the
  left; one with more dimensions may only have extra dimensions of 1 on the left, which
  are stripped.
\<close>

definition align_shape :: "nat list \<Rightarrow> nat \<Rightarrow> nat list" where
  "align_shape vs n =
     (if length vs < n then replicate (n - length vs) 1 @ vs
      else dropWhile (\<lambda>d. d = 1) (take (length vs - n) vs) @ drop (length vs - n) vs)"

text \<open>
  The copy of the elements into their positions: each element is converted and stored,
  in the order of the region, and a conversion that raises ends the copy where it is.
\<close>

fun store_cells ::
  "('a cell \<Rightarrow> error + 'a cell) \<Rightarrow> (nat \<times> 'a cell) list \<Rightarrow> 'a cell list
     \<Rightarrow> (error + unit) \<times> 'a cell list" where
  "store_cells f [] xs = (Inr (), xs)"
| "store_cells f ((p, v) # pvs) xs =
     (case f v of
        Inl e \<Rightarrow> (Inl e, xs)
      | Inr w \<Rightarrow> store_cells f pvs (xs[p := w]))"

text \<open>
  The assignment: an index expression that does not fit the array and a value whose shape
  does not fit the region raise before anything is stored; a scalar is converted once,
  before it is stored; the elements of an array are converted as they are copied. The
  outcome comes with the array as the assignment left it.
\<close>

definition nd_setitem ::
  "'a conversion \<Rightarrow> index list \<Rightarrow> 'a npvalue \<Rightarrow> 'a ndarray \<Rightarrow> (error + unit) \<times> 'a ndarray" where
  "nd_setitem conv idxs val b =
     (case nd_select idxs (nshape b) of
        Inl e \<Rightarrow> (Inl e, b)
      | Inr sel \<Rightarrow>
          (let region = map (\<lambda>(keep, ps). length ps) (filter fst sel) in
           case broadcast (align_shape (value_shape val) (length region)) region
                  (value_data val) of
             None \<Rightarrow> (Inl ValueError, b)
           | Some vs \<Rightarrow>
               (case val of
                  Item v \<Rightarrow>
                    (case conv FromScalar (ndtype b) v of
                       Inl e \<Rightarrow> (Inl e, b)
                     | Inr w \<Rightarrow>
                         (Inr (),
                          b\<lparr>ndata :=
                              fold (\<lambda>p xs. xs[p := w])
                                (nd_offsets (map snd sel) (nshape b)) (ndata b)\<rparr>))
                | Arr d \<Rightarrow>
                    (case store_cells (conv (FromArray (ndtype d)) (ndtype b))
                            (zip (nd_offsets (map snd sel) (nshape b)) vs) (ndata b) of
                       (r, xs) \<Rightarrow> (r, b\<lparr>ndata := xs\<rparr>)))))"

section \<open>The DataArray class\<close>

text \<open>
  The fields of a \<open>DataArray\<close> that its bookkeeping reads and writes. The descriptive
  attributes (name, label, units, array id, setpoint flag, owning data set, snapshot
  input) take no part in it and are left out. \<open>oid\<close> is the identity of the object:
  \<open>set_arrays\<close> holds references to arrays, and an array may refer to itself.
  \<open>synced_index\<close>, \<open>min_indices\<close> and \<open>max_indices\<close> are attributes that exist only once
  they have been assigned; \<open>None\<close> is the absent attribute.
\<close>

record 'a DataArray =
  oid :: nat
  shape :: "int list"
  action_indices :: "int list"
  set_arrays :: "nat list"
  preset :: bool
  last_saved_index :: "int option"
  modified_range :: "(int \<times> int) option"
  ndarray :: "'a ndarray option"
  synced_index :: "int option"
  min_indices :: "int list option"
  max_indices :: "int list option"

text \<open>
  A method that raises leaves the object as it was at that moment, so a method returns
  its outcome together with the object.
\<close>

type_synonym ('r, 'a) outcome = "(error + 'r) \<times> 'a DataArray"

subsection \<open>Allocation\<close>

definition set_index_bounds :: "'a DataArray \<Rightarrow> 'a DataArray" where
  "set_index_bounds a =
     a\<lparr>min_indices := Some (map (\<lambda>d. 0) (shape a)),
       max_indices := Some (map (\<lambda>d. d - 1) (shape a))\<rparr>"

text \<open>
  \<open>clear\<close> converts the existing array to \<open>float64\<close> when it is of another element type,
  and fills it with not-a-number.
\<close>

definition clear :: "'a conversion \<Rightarrow> 'a DataArray \<Rightarrow> (unit, 'a) outcome" where
  "clear conv a =
     (case ndarray a of
        None \<Rightarrow> (Inl AttributeError, a)
      | Some b \<Rightarrow>
          if ndtype b \<noteq> Float64 then
            (case astype_float conv b of
               Inl e \<Rightarrow> (Inl e, a)
             | Inr b' \<Rightarrow> (Inr (), a\<lparr>ndarray := Some (nd_fill NaN b')\<rparr>))
          else (Inr (), a\<lparr>ndarray := Some (nd_fill NaN b)\<rparr>))"

text \<open>
  \<open>init_data\<close>. The attribute \<open>shape\<close> is \<open>None\<close> only inside the constructor, between the
  assignment of the arguments and the end; \<open>init_data_from\<close> takes the value of
  \<open>self.shape\<close> as the constructor and the method see it, and \<open>init_data\<close> is the method
  on a constructed object.
\<close>

definition init_data_from ::
  "'a conversion \<Rightarrow> int list option \<Rightarrow> 'a ndarray option \<Rightarrow> 'a DataArray
     \<Rightarrow> (unit, 'a) outcome" where
  "init_data_from conv cur data a =
     (case data of
        Some d \<Rightarrow>
          (case cur of
             Some sh \<Rightarrow>
               if map int (nshape d) \<noteq> sh then (Inl ValueError, a)
               else (Inr (), set_index_bounds
                       (a\<lparr>preset := True, modified_range := Some (0, int (nd_size d) - 1),
                          ndarray := Some d\<rparr>))
           | None \<Rightarrow>
               (Inr (), set_index_bounds
                  (a\<lparr>shape := map int (nshape d), preset := True,
                     modified_range := Some (0, int (nd_size d) - 1), ndarray := Some d\<rparr>)))
      | None \<Rightarrow>
          (case ndarray a of
             Some b \<Rightarrow>
               if map int (nshape b) \<noteq> shape a then (Inl ValueError, a) else (Inr (), a)
           | None \<Rightarrow>
               (case np_ndarray (shape a) of
                  Inl e \<Rightarrow> (Inl e, a)
                | Inr b \<Rightarrow>
                    (case clear conv (a\<lparr>ndarray := Some b\<rparr>) of
                       (Inl e, a') \<Rightarrow> (Inl e, a')
                     | (Inr u, a') \<Rightarrow> (Inr (), set_index_bounds a')))))"

definition init_data ::
  "'a conversion \<Rightarrow> 'a ndarray option \<Rightarrow> 'a DataArray \<Rightarrow> (unit, 'a) outcome" where
  "init_data conv data a = init_data_from conv (Some (shape a)) data a"

text \<open>
  The constructor, with the arguments that reach the fields above: the identity of the
  new object, \<open>set_arrays\<close>, \<open>shape\<close>, \<open>action_indices\<close> and \<open>preset_data\<close>. An exception
  of \<open>init_data\<close> leaves no object.
\<close>

definition DataArray_init ::
  "'a conversion \<Rightarrow> nat \<Rightarrow> nat list \<Rightarrow> int list option \<Rightarrow> int list \<Rightarrow> 'a ndarray option
     \<Rightarrow> error + 'a DataArray" where
  "DataArray_init conv ident sets shp acts preset_data =
     (let a = \<lparr>oid = ident, shape = (case shp of None \<Rightarrow> [] | Some sh \<Rightarrow> sh),
                action_indices = acts, set_arrays = sets, preset = False,
                last_saved_index = None, modified_range = None, ndarray = None,
                synced_index = None, min_indices = None, max_indices = None\<rparr>
      in case preset_data of
           Some d \<Rightarrow>
             (case init_data_from conv shp (Some d) a of
                (Inl e, a') \<Rightarrow> Inl e
              | (Inr u, a') \<Rightarrow> Inr a')
         | None \<Rightarrow> Inr a)"

subsection \<open>Nesting\<close>

text \<open>
  The loop of \<open>nest\<close> that copies the inner data to every index of the new outer
  dimension. The inner data is the former value of \<open>ndarray\<close>; a preset array always has
  one, and the assignment of an absent one is modelled as an error.
\<close>

fun nest_copy ::
  "'a conversion \<Rightarrow> int list \<Rightarrow> 'a ndarray option \<Rightarrow> 'a ndarray
     \<Rightarrow> (error + unit) \<times> 'a ndarray" where
  "nest_copy conv [] inner b = (Inr (), b)"
| "nest_copy conv (i # is) inner b =
     (case inner of
        None \<Rightarrow> (Inl TypeError, b)
      | Some d \<Rightarrow>
          (case nd_setitem conv [Idx i] (Arr d) b of
             (Inl e, b') \<Rightarrow> (Inl e, b')
           | (Inr u, b') \<Rightarrow> nest_copy conv is inner b'))"

text \<open>\<open>nest\<close> returns \<open>self\<close>: the outcome carries the identity of the object.\<close>

definition nest ::
  "'a conversion \<Rightarrow> int \<Rightarrow> int option \<Rightarrow> nat option \<Rightarrow> 'a DataArray \<Rightarrow> (nat, 'a) outcome" where
  "nest conv n action_index set_array a =
     (if ndarray a \<noteq> None \<and> \<not> preset a then (Inl RuntimeError, a)
      else if set_array = None \<and> set_arrays a \<noteq> [] then (Inl TypeError, a)
      else
        let sa = (case set_array of None \<Rightarrow> oid a | Some r \<Rightarrow> r);
            a1 = a\<lparr>shape := n # shape a\<rparr>;
            a2 = (case action_index of
                    None \<Rightarrow> a1
                  | Some k \<Rightarrow> a1\<lparr>action_indices := k # action_indices a1\<rparr>);
            a3 = a2\<lparr>set_arrays := sa # set_arrays a2\<rparr>
        in if preset a3 then
             (case np_ndarray (shape a3) of
                Inl e \<Rightarrow> (Inl e, a3)
              | Inr b \<Rightarrow>
                  (case nest_copy conv [0..n - 1] (ndarray a3) b of
                     (Inl e, b') \<Rightarrow> (Inl e, a3\<lparr>ndarray := Some b'\<rparr>)
                   | (Inr u, b') \<Rightarrow>
                       (Inr (oid a3),
                        set_index_bounds
                          (a3\<lparr>ndarray := Some b',
                             modified_range := Some (0, int (nd_size b') - 1)\<rparr>))))
           else (Inr (oid a3), a3))"

subsection \<open>Saving\<close>

definition update_modified_range :: "int \<Rightarrow> int \<Rightarrow> 'a DataArray \<Rightarrow> 'a DataArray" where
  "update_modified_range low high a =
     (case modified_range a of
        Some (l, h) \<Rightarrow> a\<lparr>modified_range := Some (min l low, max h high)\<rparr>
      | None \<Rightarrow> a\<lparr>modified_range := Some (low, high)\<rparr>)"

definition mark_saved :: "int \<Rightarrow> 'a DataArray \<Rightarrow> 'a DataArray" where
  "mark_saved i a =
     (case modified_range a of
        Some (l, h) \<Rightarrow>
          (if h \<le> i then a\<lparr>modified_range := None\<rparr>
           else a\<lparr>modified_range := Some (max l (i + 1), h)\<rparr>)
      | None \<Rightarrow> a)
     \<lparr>last_saved_index := Some i\<rparr>"

definition clear_save :: "'a DataArray \<Rightarrow> 'a DataArray" where
  "clear_save a =
     (case last_saved_index a of
        Some k \<Rightarrow> update_modified_range 0 k a
      | None \<Rightarrow> a)
     \<lparr>last_saved_index := None\<rparr>"

subsection \<open>Writing items\<close>

text \<open>
  \<open>flat_index\<close>: the indices are completed from \<open>index_fill\<close> when they are fewer than
  the dimensions, raveled against \<open>self.shape\<close>, and the single entry of the result is
  taken; an array of no dimensions has no such entry.
\<close>

definition flat_index :: "'a DataArray \<Rightarrow> int list \<Rightarrow> int list \<Rightarrow> error + int" where
  "flat_index a indices index_fill =
     (let indices' = (if length indices < length (shape a)
                      then indices @ drop (length indices) index_fill else indices)
      in case ravel_multi_index indices' (shape a) of
           Inl e \<Rightarrow> Inl e
         | Inr r \<Rightarrow> if shape a = [] then Inl IndexError else Inr r)"

text \<open>
  The index expression of \<open>__setitem__\<close>: one entry, or a tuple of entries, either way
  turned into a list.
\<close>

datatype loop_indices = Single index | Tuple "index list"

definition as_list :: "loop_indices \<Rightarrow> index list" where
  "as_list li = (case li of Single x \<Rightarrow> [x] | Tuple xs \<Rightarrow> xs)"

text \<open>
  The loop of \<open>__setitem__\<close> over the entries, \<open>i\<close> being the position of the entry: an
  integer is kept in both lists, a slice is replaced by its start in \<open>min_indices\<close> and by
  \<open>start + ((stop - start - 1) // step) * step\<close> in \<open>max_indices\<close>. The result pairs the
  two lists.
\<close>

fun index_bounds :: "int list \<Rightarrow> nat \<Rightarrow> index list \<Rightarrow> error + (int \<times> int) list" where
  "index_bounds sh i [] = Inr []"
| "index_bounds sh i (Idx k # rest) =
     (case index_bounds sh (Suc i) rest of
        Inl e \<Rightarrow> Inl e
      | Inr r \<Rightarrow> Inr ((k, k) # r))"
| "index_bounds sh i (Slice s e st # rest) =
     (if length sh \<le> i then Inl IndexError
      else
        case slice_indices s e st (sh ! i) of
          Inl err \<Rightarrow> Inl err
        | Inr (start, stop, step) \<Rightarrow>
            (case index_bounds sh (Suc i) rest of
               Inl e \<Rightarrow> Inl e
             | Inr r \<Rightarrow> Inr ((start, start + ((stop - start - 1) div step) * step) # r)))"

definition setitem ::
  "'a conversion \<Rightarrow> loop_indices \<Rightarrow> 'a npvalue \<Rightarrow> 'a DataArray \<Rightarrow> (unit, 'a) outcome" where
  "setitem conv li val a =
     (case index_bounds (shape a) 0 (as_list li) of
        Inl e \<Rightarrow> (Inl e, a)
      | Inr bs \<Rightarrow>
          (case min_indices a of
             None \<Rightarrow> (Inl AttributeError, a)
           | Some mins \<Rightarrow>
               (case flat_index a (map fst bs) mins of
                  Inl e \<Rightarrow> (Inl e, a)
                | Inr min_li \<Rightarrow>
                    (case max_indices a of
                       None \<Rightarrow> (Inl AttributeError, a)
                     | Some maxs \<Rightarrow>
                         (case flat_index a (map snd bs) maxs of
                            Inl e \<Rightarrow> (Inl e, a)
                          | Inr max_li \<Rightarrow>
                              (let a' = update_modified_range min_li max_li a in
                               case ndarray a' of
                                 None \<Rightarrow> (Inl AttributeError, a')
                               | Some b \<Rightarrow>
                                   (case nd_setitem conv (as_list li) val b of
                                      (Inl e, b') \<Rightarrow> (Inl e, a'\<lparr>ndarray := Some b'\<rparr>)
                                    | (Inr u, b') \<Rightarrow>
                                        (Inr (), a'\<lparr>ndarray := Some b'\<rparr>))))))))"

text \<open>
  The part of \<open>__setitem__\<close> that precedes the first change of the object: it yields the
  two flat indices \<open>min_li\<close> and \<open>max_li\<close>, or raises.
\<close>

definition flat_bounds :: "loop_indices \<Rightarrow> 'a DataArray \<Rightarrow> error + (int \<times> int)" where
  "flat_bounds li a =
     (case index_bounds (shape a) 0 (as_list li) of
        Inl e \<Rightarrow> Inl e
      | Inr bs \<Rightarrow>
          (case min_indices a of
             None \<Rightarrow> Inl AttributeError
           | Some mins \<Rightarrow>
               (case flat_index a (map fst bs) mins of
                  Inl e \<Rightarrow> Inl e
                | Inr min_li \<Rightarrow>
                    (case max_indices a of
                       None \<Rightarrow> Inl AttributeError
                     | Some maxs \<Rightarrow>
                         (case flat_index a (map snd bs) maxs of
                            Inl e \<Rightarrow> Inl e
                          | Inr max_li \<Rightarrow> Inr (min_li, max_li))))))"

subsection \<open>The sync protocol\<close>

definition get_synced_index :: "'a conversion \<Rightarrow> 'a DataArray \<Rightarrow> (int, 'a) outcome" where
  "get_synced_index conv a =
     (case synced_index a of
        Some k \<Rightarrow> (Inr k, a)
      | None \<Rightarrow>
          (case init_data conv None a of
             (Inl e, a') \<Rightarrow> (Inl e, a')
           | (Inr u, a') \<Rightarrow> (Inr (- 1), a'\<lparr>synced_index := Some (- 1)\<rparr>)))"

text \<open>The dictionary that \<open>get_changes\<close> returns.\<close>

record 'a changes =
  start :: int
  stop :: int
  vals :: "'a cell list"

text \<open>The local variable \<open>latest_index\<close> of \<open>get_changes\<close>.\<close>

definition latest_index :: "'a DataArray \<Rightarrow> int" where
  "latest_index a =
     (let latest = (case last_saved_index a of None \<Rightarrow> - 1 | Some k \<Rightarrow> k)
      in case modified_range a of Some (l, h) \<Rightarrow> max latest h | None \<Rightarrow> latest)"

text \<open>The list comprehension of \<open>get_changes\<close>, over the flat indices of the range.\<close>

fun read_flat :: "'a ndarray option \<Rightarrow> int list \<Rightarrow> error + 'a cell list" where
  "read_flat nd [] = Inr []"
| "read_flat nd (i # is) =
     (case nd of
        None \<Rightarrow> Inl AttributeError
      | Some b \<Rightarrow>
          (case unravel_index i (nshape b) of
             Inl e \<Rightarrow> Inl e
           | Inr idx \<Rightarrow>
               (case nd_getelem b idx of
                  Inl e \<Rightarrow> Inl e
                | Inr v \<Rightarrow>
                    (case read_flat nd is of
                       Inl e \<Rightarrow> Inl e
                     | Inr vs \<Rightarrow> Inr (v # vs)))))"

definition get_changes :: "int \<Rightarrow> 'a DataArray \<Rightarrow> ('a changes option, 'a) outcome" where
  "get_changes si a =
     (case read_flat (ndarray a) [si + 1..latest_index a] of
        Inl e \<Rightarrow> (Inl e, a)
      | Inr vs \<Rightarrow>
          if vs \<noteq> [] then (Inr (Some \<lparr>start = si + 1, stop = latest_index a, vals = vs\<rparr>), a)
          else (Inr None, a))"

text \<open>The loop of \<open>apply_changes\<close>; \<open>i\<close> is the flat index of the next value.\<close>

fun write_flat ::
  "'a conversion \<Rightarrow> int \<Rightarrow> 'a cell list \<Rightarrow> 'a ndarray option
     \<Rightarrow> (error + unit) \<times> 'a ndarray option" where
  "write_flat conv i [] nd = (Inr (), nd)"
| "write_flat conv i (v # vs) nd =
     (case nd of
        None \<Rightarrow> (Inl AttributeError, nd)
      | Some b \<Rightarrow>
          (case unravel_index i (nshape b) of
             Inl e \<Rightarrow> (Inl e, nd)
           | Inr idx \<Rightarrow>
               (case nd_setelem conv b idx v of
                  Inl e \<Rightarrow> (Inl e, nd)
                | Inr b' \<Rightarrow> write_flat conv (i + 1) vs (Some b'))))"

definition apply_changes ::
  "'a conversion \<Rightarrow> int \<Rightarrow> int \<Rightarrow> 'a cell list \<Rightarrow> 'a DataArray \<Rightarrow> (unit, 'a) outcome" where
  "apply_changes conv start_i stop_i vs a =
     (case write_flat conv start_i vs (ndarray a) of
        (Inl e, nd) \<Rightarrow> (Inl e, a\<lparr>ndarray := nd\<rparr>)
      | (Inr u, nd) \<Rightarrow> (Inr (), a\<lparr>ndarray := nd, synced_index := Some stop_i\<rparr>))"

subsection \<open>Progress\<close>

text \<open>
  The quotient \<open>x / y\<close> of two Python integers: a divisor of zero raises; otherwise the
  result is the float nearest to the exact quotient, and a quotient too large for a float
  raises \<open>OverflowError\<close>. The rounding is the parameter \<open>fl\<close>: it takes the exact quotient
  to the float, a real number, or to the error.
\<close>

definition true_div :: "(real \<Rightarrow> error + real) \<Rightarrow> int \<Rightarrow> int \<Rightarrow> error + real" where
  "true_div fl x y =
     (if y = 0 then Inl ZeroDivisionError else fl (real_of_int x / real_of_int y))"

text \<open>\<open>fraction_complete\<close>; the literal \<open>0.0\<close> is the float zero.\<close>

definition fraction_complete :: "(real \<Rightarrow> error + real) \<Rightarrow> 'a DataArray \<Rightarrow> error + real" where
  "fraction_complete fl a =
     (case ndarray a of
        None \<Rightarrow> Inr 0
      | Some b \<Rightarrow>
          (let last_index = - 1;
               last_index = (case last_saved_index a of
                               Some k \<Rightarrow> max last_index k | None \<Rightarrow> last_index);
               last_index = (case modified_range a of
                               Some (l, h) \<Rightarrow> max last_index h | None \<Rightarrow> last_index);
               last_index = (case synced_index a of
                               Some k \<Rightarrow> max last_index k | None \<Rightarrow> last_index)
           in true_div fl (last_index + 1) (int (nd_size b))))"

subsection \<open>Operations as data\<close>

text \<open>
  The methods that change or read the bookkeeping, as one type, so that a property of
  every operation is a property of \<open>exec\<close>. The outcome keeps the error only.
\<close>

datatype 'a operation =
    InitData "'a ndarray option"
  | Nest int "int option" "nat option"
  | SetItem loop_indices "'a npvalue"
  | MarkSaved int
  | ClearSave
  | GetSyncedIndex
  | GetChanges int
  | ApplyChanges int int "'a cell list"

definition failure :: "(error + 'r) \<times> 'a DataArray \<Rightarrow> error option \<times> 'a DataArray" where
  "failure r = (case r of (Inl e, a) \<Rightarrow> (Some e, a) | (Inr v, a) \<Rightarrow> (None, a))"

fun exec ::
  "'a conversion \<Rightarrow> 'a operation \<Rightarrow> 'a DataArray \<Rightarrow> error option \<times> 'a DataArray" where
  "exec conv (InitData data) a = failure (init_data conv data a)"
| "exec conv (Nest n action_index set_array) a =
     failure (nest conv n action_index set_array a)"
| "exec conv (SetItem li val) a = failure (setitem conv li val a)"
| "exec conv (MarkSaved i) a = (None, mark_saved i a)"
| "exec conv ClearSave a = (None, clear_save a)"
| "exec conv GetSyncedIndex a = failure (get_synced_index conv a)"
| "exec conv (GetChanges si) a = failure (get_changes si a)"
| "exec conv (ApplyChanges start_i stop_i vs) a =
     failure (apply_changes conv start_i stop_i vs a)"

section \<open>Notions of the specification\<close>

text \<open>
  The cursors that are set, in the order save cursor, upper bound of the unsaved range,
  sync cursor; and the high-water mark of the specification: the greatest of them and -1.
\<close>

definition set_cursors :: "'a DataArray \<Rightarrow> int list" where
  "set_cursors a =
     (case last_saved_index a of Some k \<Rightarrow> [k] | None \<Rightarrow> []) @
     (case modified_range a of Some (l, h) \<Rightarrow> [h] | None \<Rightarrow> []) @
     (case synced_index a of Some k \<Rightarrow> [k] | None \<Rightarrow> [])"

definition high_water :: "'a DataArray \<Rightarrow> int" where
  "high_water a = Max (set (- 1 # set_cursors a))"

text \<open>
  The mark \<open>M\<close> of the round trip in the words of the specification: the greatest of
  \<open>last_saved_index\<close>, or -1 when it is unset, and the upper bound of \<open>modified_range\<close>
  when that is not empty.
\<close>

definition change_mark :: "'a DataArray \<Rightarrow> int" where
  "change_mark a =
     Max (set ((case last_saved_index a of None \<Rightarrow> - 1 | Some k \<Rightarrow> k) #
               (case modified_range a of None \<Rightarrow> [] | Some (l, h) \<Rightarrow> [h])))"

text \<open>The values that \<open>last_saved_index\<close> takes after each call of a run of \<open>mark_saved\<close>.\<close>

fun mark_saved_trace :: "int list \<Rightarrow> 'a DataArray \<Rightarrow> int option list" where
  "mark_saved_trace [] a = []"
| "mark_saved_trace (i # is) a =
     last_saved_index (mark_saved i a) # mark_saved_trace is (mark_saved i a)"










text \<open>
  The flat positions of the region that an index expression addresses in a buffer: the
  positions that an assignment through it stores to.
\<close>

definition addressed :: "index list \<Rightarrow> 'a ndarray \<Rightarrow> nat list" where
  "addressed idxs b =
     (case nd_select idxs (nshape b) of
        Inl e \<Rightarrow> []
      | Inr sel \<Rightarrow> nd_offsets (map snd sel) (nshape b))"




text \<open>\<open>modified_range\<close> covers a set of flat positions.\<close>

definition covers :: "'a DataArray \<Rightarrow> nat set \<Rightarrow> bool" where
  "covers a U =
     (\<forall>p\<in>U. case modified_range a of None \<Rightarrow> False | Some (l, h) \<Rightarrow> l \<le> int p \<and> int p \<le> h)"

text \<open>
  The operations that change nothing when they raise: all but an item write, the
  application of changes and the nesting of a preset array that passes the check of the
  set array.
\<close>

fun atomic :: "'a operation \<Rightarrow> 'a DataArray \<Rightarrow> bool" where
  "atomic (SetItem li val) a = False"
| "atomic (ApplyChanges start_i stop_i vs) a = False"
| "atomic (Nest n action_index set_array) a =
     (\<not> preset a \<or> set_array = None \<and> set_arrays a \<noteq> [])"
| "atomic opn a = True"

text \<open>
  Two buffers of the same element type, shape and number of elements; and a value that
  fits the region which an index expression addresses in a buffer: the expression
  resolves against the shape, and the shape of the value broadcasts to that of the region.
\<close>

definition same_frame :: "'a ndarray \<Rightarrow> 'a ndarray \<Rightarrow> bool" where
  "same_frame b b' =
     (ndtype b' = ndtype b \<and> nshape b' = nshape b \<and> length (ndata b') = length (ndata b))"

definition fits :: "index list \<Rightarrow> 'a npvalue \<Rightarrow> 'a ndarray \<Rightarrow> bool" where
  "fits idxs val b =
     (case nd_select idxs (nshape b) of
        Inl e \<Rightarrow> False
      | Inr sel \<Rightarrow>
          (let region = map (\<lambda>(keep, ps). length ps) (filter fst sel) in
           case broadcast (align_shape (value_shape val) (length region)) region
                  (value_data val) of
             None \<Rightarrow> False
           | Some vs \<Rightarrow> True))"

section \<open>Sample arrays\<close>

text \<open>
  A conversion that stores every value as it is given: what numpy does with a value that
  the element type of the target represents exactly, such as the small integers of the
  samples below.
\<close>

definition as_given :: "'a conversion" where
  "as_given src d v = Inr v"

text \<open>
  Values that are numbers or text, and a conversion that stores a number as it is given
  and refuses text in a \<open>float64\<close> array, as numpy refuses text that spells no number.
\<close>

datatype item = Number int | Word string

definition numbers_only :: "item conversion" where
  "numbers_only src d v =
     (case v of
        Val (Word w) \<Rightarrow> if d = Float64 then Inl ValueError else Inr v
      | _ \<Rightarrow> Inr v)"

text \<open>
  A one-dimensional array of ten values, all written and none saved; the same array
  allocated and untouched; an allocated array of four; one of two rows and three columns.
\<close>

definition line10 :: "int DataArray" where
  "line10 =
     \<lparr>oid = 0, shape = [10], action_indices = [], set_arrays = [], preset = False,
      last_saved_index = None, modified_range = Some (0, 9),
      ndarray = Some \<lparr>ndtype = Float64, nshape = [10],
                       ndata = [Val 10, Val 11, Val 12, Val 13, Val 14,
                                Val 15, Val 16, Val 17, Val 18, Val 19]\<rparr>,
      synced_index = None, min_indices = Some [0], max_indices = Some [9]\<rparr>"

definition blank10 :: "int DataArray" where
  "blank10 =
     \<lparr>oid = 1, shape = [10], action_indices = [], set_arrays = [], preset = False,
      last_saved_index = None, modified_range = None,
      ndarray = Some \<lparr>ndtype = Float64, nshape = [10],
                       ndata = [NaN, NaN, NaN, NaN, NaN, NaN, NaN, NaN, NaN, NaN]\<rparr>,
      synced_index = None, min_indices = Some [0], max_indices = Some [9]\<rparr>"

definition blank4 :: "int DataArray" where
  "blank4 =
     \<lparr>oid = 2, shape = [4], action_indices = [], set_arrays = [], preset = False,
      last_saved_index = None, modified_range = None,
      ndarray = Some \<lparr>ndtype = Float64, nshape = [4], ndata = [NaN, NaN, NaN, NaN]\<rparr>,
      synced_index = None, min_indices = Some [0], max_indices = Some [3]\<rparr>"

definition blank23 :: "int DataArray" where
  "blank23 =
     \<lparr>oid = 3, shape = [2, 3], action_indices = [], set_arrays = [], preset = False,
      last_saved_index = None, modified_range = None,
      ndarray = Some \<lparr>ndtype = Float64, nshape = [2, 3],
                       ndata = [NaN, NaN, NaN, NaN, NaN, NaN]\<rparr>,
      synced_index = None, min_indices = Some [0, 0], max_indices = Some [1, 2]\<rparr>"

text \<open>
  An array preset with the data 1, 2, 3, which numpy holds as \<open>int64\<close>, and a newly
  constructed array of no dimensions.
\<close>

definition preset3 :: "int DataArray" where
  "preset3 =
     \<lparr>oid = 4, shape = [3], action_indices = [], set_arrays = [], preset = True,
      last_saved_index = None, modified_range = Some (0, 2),
      ndarray = Some \<lparr>ndtype = Other ''int64'', nshape = [3],
                       ndata = [Val 1, Val 2, Val 3]\<rparr>,
      synced_index = None, min_indices = Some [0], max_indices = Some [2]\<rparr>"

definition fresh :: "int DataArray" where
  "fresh =
     \<lparr>oid = 7, shape = [], action_indices = [], set_arrays = [], preset = False,
      last_saved_index = None, modified_range = None, ndarray = None,
      synced_index = None, min_indices = None, max_indices = None\<rparr>"

text \<open>
  An array allocated with the shape \<open>(0,)\<close>: a buffer of no elements, and no cursor set.
\<close>

definition blank0 :: "int DataArray" where
  "blank0 =
     \<lparr>oid = 5, shape = [0], action_indices = [], set_arrays = [], preset = False,
      last_saved_index = None, modified_range = None,
      ndarray = Some \<lparr>ndtype = Float64, nshape = [0], ndata = []\<rparr>,
      synced_index = None, min_indices = Some [0], max_indices = Some [- 1]\<rparr>"

text \<open>
  An array preset with the two words \<open>a\<close> and \<open>b\<close>, which numpy holds as text, a newly
  constructed array of the same shape, and that array once allocated.
\<close>

definition words2 :: "item DataArray" where
  "words2 =
     \<lparr>oid = 6, shape = [2], action_indices = [], set_arrays = [], preset = True,
      last_saved_index = None, modified_range = Some (0, 1),
      ndarray = Some \<lparr>ndtype = Other ''<U1'', nshape = [2],
                       ndata = [Val (Word ''a''), Val (Word ''b'')]\<rparr>,
      synced_index = None, min_indices = Some [0], max_indices = Some [1]\<rparr>"

definition fresh2 :: "item DataArray" where
  "fresh2 =
     \<lparr>oid = 8, shape = [2], action_indices = [], set_arrays = [], preset = False,
      last_saved_index = None, modified_range = None, ndarray = None,
      synced_index = None, min_indices = None, max_indices = None\<rparr>"

definition blank2 :: "item DataArray" where
  "blank2 =
     fresh2\<lparr>ndarray := Some \<lparr>ndtype = Float64, nshape = [2], ndata = [NaN, NaN]\<rparr>,
            min_indices := Some [0], max_indices := Some [1]\<rparr>"

text \<open>A scalar as a value to assign, and a one-dimensional array of integers.\<close>

definition scalar :: "'a \<Rightarrow> 'a npvalue" where
  "scalar v = Item (Val v)"

definition vector :: "'a list \<Rightarrow> 'a npvalue" where
  "vector vs = Arr \<lparr>ndtype = Other ''int64'', nshape = [length vs], ndata = map Val vs\<rparr>"

section \<open>Properties\<close>

subsection \<open>The sample arrays are states of the program\<close>

lemma blank4_reachable:
  "DataArray_init conv 2 [] (Some [4]) [] None = Inr a \<Longrightarrow>
   init_data conv None a = (Inr (), blank4)"
  by (auto simp: DataArray_init_def init_data_def init_data_from_def np_ndarray_def clear_def
      nd_fill_def set_index_bounds_def blank4_def eval_nat_numeral)

lemma blank23_reachable:
  "DataArray_init conv 3 [] (Some [2, 3]) [] None = Inr a \<Longrightarrow>
   init_data conv None a = (Inr (), blank23)"
  by (auto simp: DataArray_init_def init_data_def init_data_from_def np_ndarray_def clear_def
      nd_fill_def set_index_bounds_def blank23_def eval_nat_numeral)

lemma blank10_reachable:
  "DataArray_init conv 1 [] (Some [10]) [] None = Inr a \<Longrightarrow>
   init_data conv None a = (Inr (), blank10)"
  by (auto simp: DataArray_init_def init_data_def init_data_from_def np_ndarray_def clear_def
      nd_fill_def set_index_bounds_def blank10_def eval_nat_numeral)

lemma blank0_reachable:
  "DataArray_init conv 5 [] (Some [0]) [] None = Inr a \<Longrightarrow>
   init_data conv None a = (Inr (), blank0)"
  by (auto simp: DataArray_init_def init_data_def init_data_from_def np_ndarray_def clear_def
      nd_fill_def set_index_bounds_def blank0_def)

lemma blank2_reachable:
  "DataArray_init conv 8 [] (Some [2]) [] None = Inr fresh2 \<and>
   init_data conv None fresh2 = (Inr (), blank2)"
  by (auto simp: DataArray_init_def init_data_def init_data_from_def np_ndarray_def clear_def
      nd_fill_def set_index_bounds_def blank2_def fresh2_def eval_nat_numeral)

lemma words2_reachable:
  "DataArray_init conv 6 [] None []
     (Some \<lparr>ndtype = Other ''<U1'', nshape = [2],
            ndata = [Val (Word ''a''), Val (Word ''b'')]\<rparr>) = Inr words2"
  by (simp add: DataArray_init_def init_data_from_def set_index_bounds_def words2_def
      nd_size_def)

lemma line10_reachable:
  "setitem as_given (Single (Slice None None None))
     (vector [10, 11, 12, 13, 14, 15, 16, 17, 18, 19]) (blank10\<lparr>oid := 0\<rparr>) =
   (Inr (), line10)"
  by code_simp

subsection \<open>Marking as saved\<close>

text \<open>
  C1. When the unsaved range is \<open>(low, high)\<close>, \<open>mark_saved i\<close> with \<open>i\<close> at or above
  \<open>high\<close> empties it, and with \<open>i\<close> below \<open>high\<close> makes it \<open>(max low (i + 1), high)\<close>;
  in every case, also with no unsaved range, \<open>last_saved_index\<close> becomes \<open>i\<close>.
\<close>

theorem mark_saved_effect:
  "(modified_range a = Some (low, high) \<and> high \<le> i \<longrightarrow>
      modified_range (mark_saved i a) = None) \<and>
   (modified_range a = Some (low, high) \<and> i < high \<longrightarrow>
      modified_range (mark_saved i a) = Some (max low (i + 1), high)) \<and>
   (modified_range a = None \<longrightarrow> modified_range (mark_saved i a) = None) \<and>
   last_saved_index (mark_saved i a) = Some i"
  by (simp add: mark_saved_def)

theorem mark_saved_effect_witness:
  "modified_range line10 = Some (0, 9) \<and>
   modified_range (mark_saved 9 line10) = None \<and>
   last_saved_index (mark_saved 9 line10) = Some 9 \<and>
   modified_range (mark_saved 5 line10) = Some (6, 9) \<and>
   last_saved_index (mark_saved 5 line10) = Some 5"
proof -
  have r: "modified_range line10 = Some (0, 9)"
    by (simp add: line10_def)
  show ?thesis
    using r mark_saved_effect [of line10 0 9 9] mark_saved_effect [of line10 0 9 5]
    by simp
qed

subsection \<open>Progress\<close>

lemma high_water_eq:
  "high_water a =
     (let last_index = - 1;
          last_index = (case last_saved_index a of
                          Some k \<Rightarrow> max last_index k | None \<Rightarrow> last_index);
          last_index = (case modified_range a of
                          Some (l, h) \<Rightarrow> max last_index h | None \<Rightarrow> last_index);
          last_index = (case synced_index a of
                          Some k \<Rightarrow> max last_index k | None \<Rightarrow> last_index)
      in last_index)"
  by (auto simp: high_water_def set_cursors_def Let_def split: option.splits)

lemma high_water_bounds:
  assumes "list_all (\<lambda>k. 0 \<le> k \<and> k \<le> n - 1) (set_cursors a)" and "0 < n"
  shows "- 1 \<le> high_water a \<and> high_water a \<le> n - 1"
  using assms
  by (auto simp: high_water_def set_cursors_def Let_def split: option.splits)

text \<open>
  What \<open>fraction_complete\<close> computes: the float zero when there is no buffer; with a
  buffer of at least one element, the float of one more than the high-water mark (the
  greatest of -1 and the cursors that are set) divided by the number of elements; on a
  buffer of no elements the division raises.
\<close>

lemma fraction_complete_value:
  "(ndarray a = None \<longrightarrow> fraction_complete fl a = Inr 0) \<and>
   (ndarray a = Some b \<and> nd_size b \<noteq> 0 \<longrightarrow>
      fraction_complete fl a = fl (real_of_int (1 + high_water a) / real (nd_size b))) \<and>
   (ndarray a = Some b \<and> nd_size b = 0 \<longrightarrow> fraction_complete fl a = Inl ZeroDivisionError)"
  by (simp add: fraction_complete_def true_div_def high_water_eq Let_def add.commute)

text \<open>
  Rounding to the nearest float is monotone and keeps 0 and 1. Under a rounding with
  these properties every result that \<open>fraction_complete\<close> returns lies between 0 and 1
  when every cursor that is set lies between 0 and the last flat index.
\<close>

lemma fraction_complete_unit_interval:
  assumes zero: "fl 0 = Inr 0" and one: "fl 1 = Inr 1"
    and mono: "\<And>x y u v. x \<le> y \<Longrightarrow> fl x = Inr u \<Longrightarrow> fl y = Inr v \<Longrightarrow> u \<le> v"
    and b: "ndarray a = Some b" and r: "fraction_complete fl a = Inr r"
    and c: "list_all (\<lambda>k. 0 \<le> k \<and> k \<le> int (nd_size b) - 1) (set_cursors a)"
  shows "0 \<le> r \<and> r \<le> 1"
proof -
  let ?q = "real_of_int (1 + high_water a) / real (nd_size b)"
  from b r have nz: "nd_size b \<noteq> 0"
    using fraction_complete_value [of a fl b] by auto
  with b r have q: "fl ?q = Inr r"
    using fraction_complete_value [of a fl b] by simp
  from c nz have "- 1 \<le> high_water a \<and> high_water a \<le> int (nd_size b) - 1"
    using high_water_bounds [of "int (nd_size b)" a] by simp
  then have "0 \<le> real_of_int (1 + high_water a)"
    and "real_of_int (1 + high_water a) \<le> real (nd_size b)"
    by linarith+
  moreover from nz have "0 < real (nd_size b)" by simp
  ultimately have "0 \<le> ?q" and "?q \<le> 1"
    by (simp_all add: divide_le_eq_1)
  then show ?thesis
    using mono [OF _ zero q] mono [OF _ q one] by simp
qed

text \<open>
  C8. On an array that is allocated with no element and on which no cursor is set,
  every cursor that is set lies within the buffer, and \<open>fraction_complete\<close> returns no
  float: the division raises, whatever the rounding.
\<close>

theorem fraction_complete_empty_buffer:
  "ndarray blank0 = Some \<lparr>ndtype = Float64, nshape = [0], ndata = []\<rparr> \<and>
   set_cursors blank0 = [] \<and>
   fraction_complete fl blank0 = Inl ZeroDivisionError"
  by (simp add: blank0_def set_cursors_def fraction_complete_def true_div_def nd_size_def)

subsection \<open>The save cursor\<close>

lemma mark_saved_trace_eq: "mark_saved_trace is a = map Some is"
  by (induction "is" arbitrary: a) (simp_all add: mark_saved_def)

lemma exec_last_saved_index:
  "last_saved_index (snd (exec conv opn a)) =
     (case opn of MarkSaved i \<Rightarrow> Some i | ClearSave \<Rightarrow> None | _ \<Rightarrow> last_saved_index a)"
  by (cases opn)
    (auto simp: failure_def mark_saved_def clear_save_def init_data_def init_data_from_def
      set_index_bounds_def clear_def nest_def Let_def setitem_def update_modified_range_def
      get_synced_index_def get_changes_def apply_changes_def
      split: sum.splits option.splits prod.splits if_splits)

text \<open>
  C9 as stated fails: \<open>mark_saved\<close> stores its argument whatever the cursor was, so a
  call with 5 after a call with 9 lowers \<open>last_saved_index\<close> from 9 to 5.
\<close>

theorem mark_saved_lowers_cursor:
  "last_saved_index (mark_saved 9 line10) = Some 9 \<and>
   last_saved_index (mark_saved 5 (mark_saved 9 line10)) = Some 5"
  by (simp add: mark_saved_def)

text \<open>
  C9, amended. Across a run of \<open>mark_saved\<close> calls \<open>last_saved_index\<close> is, after each call,
  the argument of that call (so it never decreases exactly when the arguments never
  decrease). Of all operations only \<open>clear_save\<close> unsets it, and only \<open>mark_saved\<close> assigns
  it; whether an operation returns or raises, and whatever the conversion of values
  does, every other one leaves it as it was.
\<close>

theorem last_saved_index_follows_calls:
  "mark_saved_trace is a = map Some is \<and>
   last_saved_index (snd (exec conv opn a)) =
     (case opn of MarkSaved i \<Rightarrow> Some i | ClearSave \<Rightarrow> None | _ \<Rightarrow> last_saved_index a)"
  by (simp add: mark_saved_trace_eq exec_last_saved_index)

theorem last_saved_index_follows_calls_witness:
  "mark_saved_trace [3, 7, 7] line10 = [Some 3, Some 7, Some 7] \<and>
   last_saved_index (snd (exec as_given ClearSave (mark_saved 7 line10))) = None \<and>
   last_saved_index (snd (exec as_given (GetChanges 2) (mark_saved 7 line10))) = Some 7"
proof -
  have "last_saved_index (mark_saved 7 line10) = Some 7"
    by (simp add: mark_saved_def)
  then show ?thesis
    using last_saved_index_follows_calls [of "[3, 7, 7]" line10 as_given ClearSave]
      last_saved_index_follows_calls [of "[]" "mark_saved 7 line10" as_given ClearSave]
      last_saved_index_follows_calls [of "[]" "mark_saved 7 line10" as_given "GetChanges 2"]
    by simp
qed

subsection \<open>Reading the changes\<close>

text \<open>
  C10. \<open>get_changes\<close> is read-only: whatever its argument, and whether it returns or
  raises, the object afterwards is the object before, in every field (buffer,
  \<open>modified_range\<close>, \<open>last_saved_index\<close>, \<open>synced_index\<close> and the rest).
\<close>

theorem get_changes_read_only: "snd (get_changes si a) = a"
  by (simp add: get_changes_def split: sum.split)

theorem get_changes_read_only_witness:
  "fst (get_changes 4 (mark_saved 9 line10)) =
     Inr (Some \<lparr>start = 5, stop = 9, vals = [Val 15, Val 16, Val 17, Val 18, Val 19]\<rparr>) \<and>
   snd (get_changes 4 (mark_saved 9 line10)) = mark_saved 9 line10"
proof -
  have "fst (get_changes 4 (mark_saved 9 line10)) =
     Inr (Some \<lparr>start = 5, stop = 9, vals = [Val 15, Val 16, Val 17, Val 18, Val 19]\<rparr>)"
    by code_simp
  then show ?thesis
    using get_changes_read_only [of 4 "mark_saved 9 line10"] by simp
qed

subsection \<open>Nesting\<close>








lemma fold_update_block:
  "k + length vs \<le> length ys \<Longrightarrow>
   fold (\<lambda>(p, v) xs. xs[p := v]) (zip [k..<k + length vs] vs) ys =
     take k ys @ vs @ drop (k + length vs) ys"
proof (induction vs arbitrary: k ys)
  case Nil
  show ?case by simp
next
  case (Cons v vs)
  have "[k..<Suc (k + length vs)] = k # [Suc k..<Suc (k + length vs)]"
    by (rule upt_conv_Cons) simp
  moreover have "take (Suc k) (ys[k := v]) = take k ys @ [v]"
    using Cons.prems by (simp add: take_Suc_conv_app_nth)
  ultimately show ?case
    using Cons.IH [of "Suc k" "ys[k := v]"] Cons.prems by simp
qed


lemma nd_select_row:
  "i < n \<Longrightarrow>
   nd_select [Idx (int i)] (n # ds) = Inr ((False, [i]) # map (\<lambda>d. (True, [0..<d])) ds)"
  by simp





lemma convert_all_same: "list_all (\<lambda>v. f v = Inr v) vs \<Longrightarrow> convert_all f vs = Inr vs"
  by (induction vs) simp_all

lemma convert_all_take:
  "convert_all f vs = Inr ws \<Longrightarrow> convert_all f (take k vs) = Inr (take k ws)"
proof (induction vs arbitrary: ws k)
  case Nil
  then show ?case by simp
next
  case (Cons v vs)
  then show ?case
    by (cases k) (auto split: sum.splits)
qed


lemma store_cells_fails:
  "convert_all f vs = Inl e \<Longrightarrow> length ps = length vs \<Longrightarrow>
   fst (store_cells f (zip ps vs) ys) = Inl e"
proof (induction ps vs arbitrary: ys rule: list_induct2')
  case (4 p ps v vs)
  then show ?case
    by (cases "f v") (auto split: sum.splits)
qed simp_all

lemma store_cells_returns:
  assumes "store_cells f (zip ps vs) ys = (Inr u, zs)" and "length ps = length vs"
  shows "\<exists>ws. convert_all f vs = Inr ws"
proof (cases "convert_all f vs")
  case (Inl e)
  from store_cells_fails [OF this assms(2), of ys] assms(1) show ?thesis
    by simp
next
  case (Inr ws)
  then show ?thesis by simp
qed

lemma length_store_cells: "length (snd (store_cells f pvs ys)) = length ys"
  by (induction pvs arbitrary: ys) (auto split: sum.splits)

lemma store_cells_outside:
  "p \<notin> fst ` set pvs \<Longrightarrow> snd (store_cells f pvs ys) ! p = ys ! p"
  by (induction pvs arbitrary: ys) (auto split: sum.splits)



lemma length_store_cells_result:
  "store_cells f pvs ys = (r, zs) \<Longrightarrow> length zs = length ys"
  using length_store_cells [of f pvs ys] by simp

lemma length_fold_store: "length (fold (\<lambda>p xs. xs[p := w]) ps xs) = length xs"
  by (induction ps arbitrary: xs) simp_all

lemma nd_setitem_frame: "same_frame b (snd (nd_setitem conv idxs val b))"
  by (auto simp: nd_setitem_def same_frame_def Let_def length_fold_store
      dest: length_store_cells_result
      split: sum.splits option.splits npvalue.splits prod.splits)














lemma nest_plain_result:
  assumes "\<not> preset a" and "ndarray a = None" and "sa = None \<longrightarrow> set_arrays a = []"
  shows "nest conv n ai sa a =
     (Inr (oid a),
      a\<lparr>shape := n # shape a,
        action_indices := (case ai of None \<Rightarrow> action_indices a | Some k \<Rightarrow> k # action_indices a),
        set_arrays := (case sa of None \<Rightarrow> oid a | Some r \<Rightarrow> r) # set_arrays a\<rparr>)"
  using assms by (cases ai; cases sa) (simp_all add: nest_def Let_def)

lemma nest_success_fields:
  assumes "nest conv n ai sa a = (Inr r, a')"
  shows "r = oid a \<and> oid a' = oid a \<and> shape a' = n # shape a \<and>
     set_arrays a' = (case sa of None \<Rightarrow> oid a | Some s \<Rightarrow> s) # set_arrays a \<and>
     action_indices a' =
       (case ai of None \<Rightarrow> action_indices a | Some k \<Rightarrow> k # action_indices a)"
  using assms
  by (cases ai)
    (auto simp: nest_def Let_def set_index_bounds_def
      split: if_splits sum.splits prod.splits)

lemma preset3_reachable:
  "DataArray_init conv 4 [] None []
     (Some \<lparr>ndtype = Other ''int64'', nshape = [3], ndata = [Val 1, Val 2, Val 3]\<rparr>) =
   Inr preset3"
  by (simp add: DataArray_init_def init_data_from_def nd_size_def
      set_index_bounds_def preset3_def)

lemma fresh_reachable: "DataArray_init conv 7 [] None [] None = Inr fresh"
  by (simp add: DataArray_init_def fresh_def)





text \<open>
  C6. When \<open>nest\<close> returns, it returns the array itself, with the size in front of
  \<open>shape\<close>, the resolved set array (the one named, or the array itself) in front of
  \<open>set_arrays\<close>, and the action index, when one is given, in front of \<open>action_indices\<close>.
  It returns on every array without a buffer whenever a set array is named or none is
  held yet. Consequently, nesting a newly constructed array of no dimensions with size 3
  and then with size 4 gives the shape (4, 3) and two set arrays, the outer one first.
\<close>

theorem nest_prepends:
  "(nest conv n ai sa a = (Inr r, a') \<longrightarrow>
      r = oid a \<and> oid a' = oid a \<and> shape a' = n # shape a \<and>
      set_arrays a' = (case sa of None \<Rightarrow> oid a | Some s \<Rightarrow> s) # set_arrays a \<and>
      action_indices a' =
        (case ai of None \<Rightarrow> action_indices a | Some k \<Rightarrow> k # action_indices a)) \<and>
   (ndarray a = None \<and> \<not> preset a \<and> (sa = None \<longrightarrow> set_arrays a = []) \<longrightarrow>
      (\<exists>a''. nest conv n ai sa a = (Inr (oid a), a''))) \<and>
   (DataArray_init conv ident [] None acts None = Inr f \<and>
    nest conv 3 ai1 sa1 f = (Inr r1, a1) \<and> nest conv 4 ai2 sa2 a1 = (Inr r2, a2) \<longrightarrow>
      shape a2 = [4, 3] \<and> length (set_arrays a2) = 2 \<and>
      set_arrays a2 = [case sa2 of None \<Rightarrow> ident | Some s \<Rightarrow> s,
                       case sa1 of None \<Rightarrow> ident | Some s \<Rightarrow> s])"
proof -
  have effect: "r = oid a \<and> oid a' = oid a \<and> shape a' = n # shape a \<and>
      set_arrays a' = (case sa of None \<Rightarrow> oid a | Some s \<Rightarrow> s) # set_arrays a \<and>
      action_indices a' =
        (case ai of None \<Rightarrow> action_indices a | Some k \<Rightarrow> k # action_indices a)"
    if "nest conv n ai sa a = (Inr r, a')"
    using that by (rule nest_success_fields)
  have returns: "\<exists>a''. nest conv n ai sa a = (Inr (oid a), a'')"
    if "ndarray a = None \<and> \<not> preset a \<and> (sa = None \<longrightarrow> set_arrays a = [])"
    using that nest_plain_result [of a sa conv n ai] by simp
  have twice: "shape a2 = [4, 3] \<and> length (set_arrays a2) = 2 \<and>
      set_arrays a2 = [case sa2 of None \<Rightarrow> ident | Some s \<Rightarrow> s,
                       case sa1 of None \<Rightarrow> ident | Some s \<Rightarrow> s]"
    if h: "DataArray_init conv ident [] None acts None = Inr f \<and>
      nest conv 3 ai1 sa1 f = (Inr r1, a1) \<and> nest conv 4 ai2 sa2 a1 = (Inr r2, a2)"
  proof -
    from h have f: "oid f = ident \<and> shape f = [] \<and> set_arrays f = []"
      by (auto simp: DataArray_init_def)
    from h have 1: "oid a1 = oid f \<and> shape a1 = 3 # shape f \<and>
        set_arrays a1 = (case sa1 of None \<Rightarrow> oid f | Some s \<Rightarrow> s) # set_arrays f"
      using nest_success_fields [of conv 3 ai1 sa1 f r1 a1] by simp
    from h have 2: "shape a2 = 4 # shape a1 \<and>
        set_arrays a2 = (case sa2 of None \<Rightarrow> oid a1 | Some s \<Rightarrow> s) # set_arrays a1"
      using nest_success_fields [of conv 4 ai2 sa2 a1 r2 a2] by simp
    from f 1 2 show ?thesis
      by (auto split: option.splits)
  qed
  show ?thesis
    apply (rule conjI)
     apply (rule impI)
     apply (erule effect)
    apply (rule conjI)
     apply (rule impI)
     apply (erule returns)
    apply (rule impI)
    apply (erule twice)
    done
qed

theorem nest_prepends_witness:
  "DataArray_init as_given 7 [] None [] None = Inr fresh \<and>
   fst (nest as_given 3 None None fresh) = Inr 7 \<and>
   fst (nest as_given 4 (Some 0) (Some 8) (snd (nest as_given 3 None None fresh))) = Inr 7 \<and>
   shape (snd (nest as_given 4 (Some 0) (Some 8) (snd (nest as_given 3 None None fresh)))) =
     [4, 3] \<and>
   set_arrays (snd (nest as_given 4 (Some 0) (Some 8) (snd (nest as_given 3 None None fresh)))) =
     [8, 7] \<and>
   action_indices
     (snd (nest as_given 4 (Some 0) (Some 8) (snd (nest as_given 3 None None fresh)))) = [0]"
proof -
  have i: "DataArray_init as_given 7 [] None [] None = Inr fresh"
    by (rule fresh_reachable)
  have f: "ndarray fresh = None \<and> \<not> preset fresh \<and> set_arrays fresh = [] \<and> oid fresh = 7 \<and>
      action_indices fresh = []"
    by (simp add: fresh_def)
  note t = nest_prepends [where conv = as_given and ident = 7 and acts = "[]" and f = fresh
      and ?ai1.0 = None and ?sa1.0 = None and ?r1.0 = 7 and ?ai2.0 = "Some 0"
      and ?sa2.0 = "Some 8" and ?r2.0 = 7]
  have "\<exists>a''. nest as_given 3 None None fresh = (Inr (oid fresh), a'')"
    by (rule t [of 3 None None fresh 7 fresh fresh fresh, THEN conjunct2, THEN conjunct1, THEN mp])
      (simp add: f)
  then obtain a1 where 1: "nest as_given 3 None None fresh = (Inr 7, a1)"
    using f by auto
  have "oid a1 = oid fresh \<and> action_indices a1 = action_indices fresh"
    using t [of 3 None None fresh 7 a1 fresh fresh, THEN conjunct1, THEN mp, OF 1] by simp
  then have a1: "oid a1 = 7 \<and> action_indices a1 = []"
    using f by simp
  have n1: "ndarray a1 = None \<and> \<not> preset a1"
    using 1 f by (auto simp: nest_def Let_def)
  have "\<exists>a''. nest as_given 4 (Some 0) (Some 8) a1 = (Inr (oid a1), a'')"
    by (rule t [of 4 "Some 0" "Some 8" a1 7 a1 fresh fresh, THEN conjunct2, THEN conjunct1, THEN mp])
      (simp add: n1)
  then obtain a2 where 2: "nest as_given 4 (Some 0) (Some 8) a1 = (Inr 7, a2)"
    using a1 by auto
  have "shape a2 = [4, 3] \<and> length (set_arrays a2) = 2 \<and> set_arrays a2 = [8, 7]"
    using t [of 4 "Some 0" "Some 8" a1 7 a2 a1 a2, THEN conjunct2, THEN conjunct2, THEN mp]
      i 1 2 by simp
  moreover have "action_indices a2 = 0 # action_indices a1"
    using t [of 4 "Some 0" "Some 8" a1 7 a2 a1 a2, THEN conjunct1, THEN mp, OF 2] by simp
  ultimately have "shape a2 = [4, 3] \<and> set_arrays a2 = [8, 7] \<and> action_indices a2 = [0]"
    using a1 by simp
  then show ?thesis
    using i 1 2 by simp
qed

subsection \<open>The sync protocol\<close>

lemma unravel_props:
  "n < prod_list ds \<Longrightarrow>
   length (unravel n ds) = length ds \<and>
   \<not> list_ex (\<lambda>(i, d). d \<le> i) (zip (unravel n ds) ds) \<and>
   nd_offset (unravel n ds) ds = n"
proof (induction ds arbitrary: n)
  case Nil
  then show ?case by simp
next
  case (Cons d ds)
  let ?m = "prod_list ds"
  from Cons.prems have lt: "n < d * ?m"
    by simp
  then have pos: "0 < ?m"
    by (cases "?m = 0") simp_all
  have q: "n div ?m < d"
    using lt by (rule less_mult_imp_div_less)
  have "n mod ?m < ?m"
    using pos by simp
  from Cons.IH [OF this] q show ?case
    by simp
qed

lemma nd_getelem_flat:
  assumes "nd_wf b" and "n < nd_size b"
  shows "nd_getelem b (unravel n (nshape b)) = Inr (ndata b ! n)"
  using assms unravel_props [of n "nshape b"]
  by (simp add: nd_getelem_def nd_wf_def nd_size_def)

lemma nd_setelem_flat:
  assumes "nd_wf b" and "n < nd_size b"
  shows "nd_setelem conv b (unravel n (nshape b)) v =
     (case conv FromScalar (ndtype b) v of
        Inl e \<Rightarrow> Inl e
      | Inr w \<Rightarrow> Inr (b\<lparr>ndata := (ndata b)[n := w]\<rparr>))"
  using assms unravel_props [of n "nshape b"]
  by (auto simp: nd_setelem_def nd_wf_def nd_size_def split: sum.splits)

lemma read_flat_range:
  assumes "nd_wf b" and "0 \<le> lo" and "hi < int (nd_size b)"
  shows "read_flat (Some b) [lo..hi] = Inr (map (\<lambda>i. ndata b ! nat i) [lo..hi])"
  using assms(2)
proof (induction "nat (hi + 1 - lo)" arbitrary: lo)
  case 0
  then show ?case by simp
next
  case (Suc j)
  then have le: "lo \<le> hi" and j: "j = nat (hi + 1 - (lo + 1))"
    by linarith+
  have u: "[lo..hi] = lo # [lo + 1..hi]"
    using le by (rule upto_rec1)
  have "nat lo < nd_size b"
    using le assms(3) Suc.prems by linarith
  then have g: "nd_getelem b (unravel (nat lo) (nshape b)) = Inr (ndata b ! nat lo)"
    using assms(1) by (intro nd_getelem_flat)
  have i: "unravel_index lo (nshape b) = Inr (unravel (nat lo) (nshape b))"
    using le assms(3) Suc.prems by (simp add: unravel_index_def nd_size_def)
  have "read_flat (Some b) [lo + 1..hi] = Inr (map (\<lambda>i. ndata b ! nat i) [lo + 1..hi])"
    using Suc.prems by (intro Suc.hyps(1) [OF j]) simp
  then show ?case
    by (simp only: u read_flat.simps option.case i sum.case g list.map)
qed

lemma write_flat_block:
  assumes "nd_wf b" and "0 \<le> lo" and "nat lo + length vs \<le> nd_size b"
    and "convert_all (conv FromScalar (ndtype b)) vs = Inr ws"
  shows "write_flat conv lo vs (Some b) =
     (Inr (), Some (b\<lparr>ndata := take (nat lo) (ndata b) @ ws @
                                   drop (nat lo + length vs) (ndata b)\<rparr>))"
  using assms
proof (induction vs arbitrary: lo b ws)
  case Nil
  then show ?case by simp
next
  case (Cons v vs)
  from Cons.prems(4) obtain w ws' where cw: "conv FromScalar (ndtype b) v = Inr w"
    and cws: "convert_all (conv FromScalar (ndtype b)) vs = Inr ws'" and ws: "ws = w # ws'"
    by (auto split: sum.splits)
  let ?b = "b\<lparr>ndata := (ndata b)[nat lo := w]\<rparr>"
  have lt: "nat lo < nd_size b"
    using Cons.prems(3) by simp
  then have s: "nd_setelem conv b (unravel (nat lo) (nshape b)) v = Inr ?b"
    using Cons.prems(1) cw by (simp add: nd_setelem_flat)
  have i: "unravel_index lo (nshape b) = Inr (unravel (nat lo) (nshape b))"
    using lt Cons.prems(2) by (simp add: unravel_index_def nd_size_def)
  have len: "length (ndata b) = nd_size b"
    using Cons.prems(1) by (simp add: nd_wf_def)
  have w: "nd_wf ?b"
    using Cons.prems(1) by (simp add: nd_wf_def nd_size_def)
  have n: "nat (lo + 1) = Suc (nat lo)"
    using Cons.prems(2) by simp
  have "write_flat conv (lo + 1) vs (Some ?b) =
      (Inr (), Some (?b\<lparr>ndata := take (nat (lo + 1)) (ndata ?b) @ ws' @
                                     drop (nat (lo + 1) + length vs) (ndata ?b)\<rparr>))"
    using Cons.prems(2,3) cws by (intro Cons.IH [OF w]) (simp_all add: nd_size_def n)
  moreover have "take (Suc (nat lo)) (ndata ?b) = take (nat lo) (ndata b) @ [w]"
    using lt len by (simp add: take_Suc_conv_app_nth)
  ultimately show ?case
    by (simp add: i s n ws)
qed

text \<open>
  When the loop of \<open>apply_changes\<close> raises on an array with a buffer, it does so at the
  first value whose flat index is not one of the buffer or which has no conversion; the
  values before it are stored, converted, at their flat indices.
\<close>

lemma write_flat_failure:
  assumes "nd_wf b" and "write_flat conv i vs (Some b) = (Inl e, nd)"
  shows "\<exists>k ws. k < length vs \<and>
     convert_all (conv FromScalar (ndtype b)) (take k vs) = Inr ws \<and>
     nd = Some (b\<lparr>ndata := take (nat i) (ndata b) @ ws @ drop (nat i + k) (ndata b)\<rparr>) \<and>
     (i + int k < 0 \<or> int (nd_size b) \<le> i + int k \<or>
      conv FromScalar (ndtype b) (vs ! k) = Inl e)"
  using assms
proof (induction vs arbitrary: i b nd)
  case Nil
  then show ?case by simp
next
  case (Cons v vs)
  let ?f = "conv FromScalar (ndtype b)"
  have same: "b\<lparr>ndata := take (nat i) (ndata b) @ [] @ drop (nat i + 0) (ndata b)\<rparr> = b"
    by simp
  show ?case
  proof (cases "i < 0 \<or> int (nd_size b) \<le> i")
    case True
    then have "unravel_index i (nshape b) = Inl ValueError"
      by (simp add: unravel_index_def nd_size_def)
    with Cons.prems(2) have "nd = Some b"
      by simp
    with True same show ?thesis
      by (intro exI [of _ 0] exI [of _ "[]"]) auto
  next
    case False
    then have lo: "0 \<le> i" and lt: "nat i < nd_size b"
      by linarith+
    have i: "unravel_index i (nshape b) = Inr (unravel (nat i) (nshape b))"
      using False by (simp add: unravel_index_def nd_size_def)
    have len: "length (ndata b) = nd_size b"
      using Cons.prems(1) by (simp add: nd_wf_def)
    show ?thesis
    proof (cases "?f v")
      case (Inl e')
      with Cons.prems i lt have "nd = Some b" and "e' = e"
        by (simp_all add: nd_setelem_flat)
      with Inl same show ?thesis
        by (intro exI [of _ 0] exI [of _ "[]"]) simp
    next
      case (Inr w)
      let ?b = "b\<lparr>ndata := (ndata b)[nat i := w]\<rparr>"
      have w: "nd_wf ?b"
        using Cons.prems(1) by (simp add: nd_wf_def nd_size_def)
      from Cons.prems i lt Inr have "write_flat conv (i + 1) vs (Some ?b) = (Inl e, nd)"
        by (simp add: nd_setelem_flat)
      from Cons.IH [OF w this] obtain k ws where k: "k < length vs"
        and ws: "convert_all ?f (take k vs) = Inr ws"
        and nd: "nd = Some (?b\<lparr>ndata := take (nat (i + 1)) (ndata ?b) @ ws @
            drop (nat (i + 1) + k) (ndata ?b)\<rparr>)"
        and why: "i + 1 + int k < 0 \<or> int (nd_size ?b) \<le> i + 1 + int k \<or>
            ?f (vs ! k) = Inl e"
        by auto
      have n: "nat (i + 1) = Suc (nat i)"
        using lo by simp
      have t: "take (Suc (nat i)) (ndata ?b) = take (nat i) (ndata b) @ [w]"
        using lt len by (simp add: take_Suc_conv_app_nth)
      have d: "drop (Suc (nat i) + k) (ndata ?b) = drop (nat i + Suc k) (ndata b)"
        by simp
      have "nd = Some (b\<lparr>ndata := take (nat i) (ndata b) @ (w # ws) @
          drop (nat i + Suc k) (ndata b)\<rparr>)"
        unfolding nd n t d by simp
      moreover have "convert_all ?f (take (Suc k) (v # vs)) = Inr (w # ws)"
        using Inr ws by simp
      moreover have "i + int (Suc k) < 0 \<or> int (nd_size b) \<le> i + int (Suc k) \<or>
          ?f ((v # vs) ! Suc k) = Inl e"
        using why by (simp add: nd_size_def add.commute add.left_commute)
      ultimately show ?thesis
        using k by (intro exI [of _ "Suc k"] exI [of _ "w # ws"]) simp
    qed
  qed
qed

lemma latest_index_change_mark: "latest_index a = change_mark a"
  by (auto simp: latest_index_def change_mark_def Let_def split: option.splits)

lemma get_changes_none: "latest_index p \<le> si \<Longrightarrow> get_changes si p = (Inr None, p)"
  by (simp add: get_changes_def)

lemma block_nth:
  assumes "k + length vs \<le> length ys" and "j < length vs"
  shows "(take k ys @ vs @ drop (k + length vs) ys) ! (k + j) = vs ! j"
  using assms by (simp add: nth_append)

lemma read_flat_in_range:
  assumes "read_flat nd [lo..hi] = Inr vs" and "lo \<le> hi"
  shows "\<exists>b. nd = Some b \<and> 0 \<le> lo \<and> hi < int (nd_size b)"
  using assms
proof (induction "nat (hi - lo)" arbitrary: lo vs)
  case 0
  then have eq: "hi = lo" by simp
  from "0.prems"(1) show ?case
    unfolding eq
    by (cases nd) (auto simp: unravel_index_def nd_size_def split: if_splits sum.splits)
next
  case (Suc j)
  then have lt: "lo < hi" and j: "j = nat (hi - (lo + 1))"
    by linarith+
  have u: "[lo..hi] = lo # [lo + 1..hi]"
    using lt by (intro upto_rec1) simp
  from Suc.prems(1) obtain b where b: "nd = Some b"
    unfolding u by (cases nd) simp_all
  from Suc.prems(1) have lo: "0 \<le> lo"
    unfolding u b by (auto simp: unravel_index_def split: if_splits sum.splits)
  from Suc.prems(1) obtain vs' where "read_flat nd [lo + 1..hi] = Inr vs'"
    unfolding u b by (auto split: sum.splits)
  from Suc.hyps(1) [OF j this] lt b lo show ?case
    by simp
qed

lemma get_changes_returns_in_range:
  assumes "si < latest_index p" and "fst (get_changes si p) = Inr res"
  shows "\<exists>bp. ndarray p = Some bp \<and> - 1 \<le> si \<and> latest_index p < int (nd_size bp)"
proof -
  from assms(2) obtain vs where "read_flat (ndarray p) [si + 1..latest_index p] = Inr vs"
    by (auto simp: get_changes_def split: sum.splits)
  from read_flat_in_range [OF this] assms(1) show ?thesis
    by auto
qed

text \<open>
  C2 as stated fails, in three ways. The mark \<open>M\<close> may lie beyond the buffer, or \<open>s\<close> below
  -1: on the array of ten elements after \<open>mark_saved 20\<close>, \<open>M\<close> is 20, above 4, and
  \<open>get_changes 4\<close> raises; so does \<open>get_changes (-2)\<close> on the array itself, where \<open>M\<close> is 9.
  The second array may hold its values in another element type: the changes of the array
  preset with two words are these two words, and \<open>apply_changes\<close> with them on an
  allocated array of the same shape, whose buffer is a \<open>float64\<close> array, raises and stores
  nothing. And the second array may have no buffer yet: on a newly constructed array of
  the same shape \<open>apply_changes\<close> raises as well.
\<close>

theorem round_trip_breaks:
  "change_mark (mark_saved 20 line10) = 20 \<and>
   fst (get_changes 4 (mark_saved 20 line10)) = Inl ValueError \<and>
   change_mark line10 = 9 \<and>
   fst (get_changes (- 2) line10) = Inl ValueError \<and>
   change_mark words2 = 1 \<and>
   get_changes (- 1) words2 =
     (Inr (Some \<lparr>start = 0, stop = 1, vals = [Val (Word ''a''), Val (Word ''b'')]\<rparr>), words2) \<and>
   shape blank2 = shape words2 \<and>
   apply_changes numbers_only 0 1 [Val (Word ''a''), Val (Word ''b'')] blank2 =
     (Inl ValueError, blank2) \<and>
   shape fresh2 = shape words2 \<and>
   apply_changes numbers_only 0 1 [Val (Word ''a''), Val (Word ''b'')] fresh2 =
     (Inl AttributeError, fresh2)"
  by code_simp

text \<open>
  C2, amended. Let \<open>M\<close> be the greater of \<open>last_saved_index\<close> (or -1 when it is unset) and
  the upper bound of \<open>modified_range\<close> when there is one. When \<open>M > s\<close> and the flat
  indices \<open>s + 1\<close> to \<open>M\<close> exist in the producer's buffer (\<open>s \<ge> -1\<close>, \<open>M\<close> below the number
  of elements), \<open>get_changes s\<close> returns the start \<open>s + 1\<close>, the stop \<open>M\<close> and the
  elements at these flat indices in order; \<open>apply_changes\<close> with this result on a second
  array that has a buffer of the same shape, in which the conversion stores each of
  these elements as it is, returns, changes the buffer at these positions only, makes it
  agree there with the producer's, and sets \<open>synced_index\<close> to \<open>M\<close>. When \<open>M \<le> s\<close>,
  \<open>get_changes s\<close> returns no changes, on every array. With \<open>M > s\<close> it returns only when
  these flat indices exist; otherwise it raises.
\<close>

theorem sync_round_trip:
  "(ndarray p = Some bp \<and> nd_wf bp \<and> ndarray c = Some bc \<and> nd_wf bc \<and>
    nshape bc = nshape bp \<and>
    si < change_mark p \<and> - 1 \<le> si \<and> change_mark p < int (nd_size bp) \<and>
    list_all (\<lambda>i. conv FromScalar (ndtype bc) (ndata bp ! nat i) = Inr (ndata bp ! nat i))
      [si + 1..change_mark p] \<longrightarrow>
      (\<exists>vs c' bc'.
         get_changes si p =
           (Inr (Some \<lparr>start = si + 1, stop = change_mark p, vals = vs\<rparr>), p) \<and>
         vs = map (\<lambda>i. ndata bp ! nat i) [si + 1..change_mark p] \<and>
         apply_changes conv (si + 1) (change_mark p) vs c = (Inr (), c') \<and>
         c' = c\<lparr>ndarray := Some bc', synced_index := Some (change_mark p)\<rparr> \<and>
         bc' = bc\<lparr>ndata := take (nat (si + 1)) (ndata bc) @ vs @
                                  drop (nat (si + 1) + length vs) (ndata bc)\<rparr> \<and>
         list_all (\<lambda>i. ndata bc' ! nat i = ndata bp ! nat i) [si + 1..change_mark p])) \<and>
   (change_mark p \<le> si \<longrightarrow> get_changes si p = (Inr None, p)) \<and>
   (si < change_mark p \<and> fst (get_changes si p) = Inr res \<longrightarrow>
      (\<exists>b. ndarray p = Some b \<and> - 1 \<le> si \<and> change_mark p < int (nd_size b)))"
proof -
  let ?M = "change_mark p"
  let ?vs = "map (\<lambda>i. ndata bp ! nat i) [si + 1..?M]"
  let ?bc = "bc\<lparr>ndata := take (nat (si + 1)) (ndata bc) @ ?vs @
                              drop (nat (si + 1) + length ?vs) (ndata bc)\<rparr>"
  let ?c = "c\<lparr>ndarray := Some ?bc, synced_index := Some ?M\<rparr>"
  have m: "latest_index p = ?M"
    by (rule latest_index_change_mark)
  have changes: "\<exists>vs c' bc'.
         get_changes si p = (Inr (Some \<lparr>start = si + 1, stop = ?M, vals = vs\<rparr>), p) \<and>
         vs = ?vs \<and>
         apply_changes conv (si + 1) ?M vs c = (Inr (), c') \<and>
         c' = c\<lparr>ndarray := Some bc', synced_index := Some ?M\<rparr> \<and>
         bc' = bc\<lparr>ndata := take (nat (si + 1)) (ndata bc) @ vs @
                                  drop (nat (si + 1) + length vs) (ndata bc)\<rparr> \<and>
         list_all (\<lambda>i. ndata bc' ! nat i = ndata bp ! nat i) [si + 1..?M]"
    if h: "ndarray p = Some bp \<and> nd_wf bp \<and> ndarray c = Some bc \<and> nd_wf bc \<and>
      nshape bc = nshape bp \<and> si < ?M \<and> - 1 \<le> si \<and> ?M < int (nd_size bp) \<and>
      list_all (\<lambda>i. conv FromScalar (ndtype bc) (ndata bp ! nat i) = Inr (ndata bp ! nat i))
        [si + 1..?M]"
  proof -
    from h have lo: "0 \<le> si + 1" and ne: "[si + 1..?M] \<noteq> []"
      by simp_all
    have len: "length ?vs = nat (?M - si)"
      by simp
    have sz: "nd_size bc = nd_size bp" and lc: "length (ndata bc) = nd_size bp"
      using h by (simp_all add: nd_size_def nd_wf_def)
    have fits: "nat (si + 1) + length ?vs \<le> nd_size bc"
      using h lo sz by (simp only: len) linarith
    have r: "read_flat (ndarray p) [si + 1..?M] = Inr ?vs"
      using h lo by (simp add: read_flat_range)
    have g: "get_changes si p = (Inr (Some \<lparr>start = si + 1, stop = ?M, vals = ?vs\<rparr>), p)"
      using ne by (simp add: get_changes_def m r)
    have "list_all (\<lambda>v. conv FromScalar (ndtype bc) v = Inr v) ?vs"
      using h by (simp add: list_all_iff)
    then have cv: "convert_all (conv FromScalar (ndtype bc)) ?vs = Inr ?vs"
      by (rule convert_all_same)
    have w: "write_flat conv (si + 1) ?vs (ndarray c) = (Inr (), Some ?bc)"
      using h lo fits cv by (simp only: write_flat_block)
    have a: "apply_changes conv (si + 1) ?M ?vs c = (Inr (), ?c)"
      by (simp add: apply_changes_def w)
    have "ndata ?bc ! nat i = ndata bp ! nat i" if "i \<in> set [si + 1..?M]" for i
    proof -
      from that lo have i: "si + 1 \<le> i" "i \<le> ?M"
        by simp_all
      define j where "j = nat (i - (si + 1))"
      have ji: "nat i = nat (si + 1) + j" and jl: "j < length ?vs"
        using i lo by (simp_all add: j_def)
      have nd: "ndata ?bc = take (nat (si + 1)) (ndata bc) @ ?vs @
          drop (nat (si + 1) + length ?vs) (ndata bc)"
        by simp
      have "ndata ?bc ! nat i = ?vs ! j"
        unfolding nd ji using fits sz lc jl by (intro block_nth) simp_all
      also have "\<dots> = ndata bp ! nat i"
        using jl i lo by (simp add: j_def)
      finally show ?thesis .
    qed
    then have "list_all (\<lambda>i. ndata ?bc ! nat i = ndata bp ! nat i) [si + 1..?M]"
      by (simp only: list_all_iff) blast
    with g a show ?thesis
      by (intro exI [of _ ?vs] exI [of _ ?c] exI [of _ ?bc]) simp
  qed
  have none: "get_changes si p = (Inr None, p)" if "?M \<le> si"
    using that get_changes_none [of p si] by (simp add: m)
  have returns: "\<exists>b. ndarray p = Some b \<and> - 1 \<le> si \<and> ?M < int (nd_size b)"
    if "si < ?M \<and> fst (get_changes si p) = Inr res"
    using that get_changes_returns_in_range [of si p res] by (simp add: m)
  show ?thesis
    apply (rule conjI)
     apply (rule impI)
     apply (erule changes)
    apply (rule conjI)
     apply (rule impI)
     apply (erule none)
    apply (rule impI)
    apply (erule returns)
    done
qed

theorem sync_round_trip_witness:
  "last_saved_index (mark_saved 3 line10) = Some 3 \<and>
   modified_range (mark_saved 3 line10) = Some (4, 9) \<and>
   change_mark (mark_saved 3 line10) = 9 \<and>
   get_changes 4 (mark_saved 3 line10) =
     (Inr (Some \<lparr>start = 5, stop = 9, vals = [Val 15, Val 16, Val 17, Val 18, Val 19]\<rparr>),
      mark_saved 3 line10) \<and>
   apply_changes as_given 5 9 [Val 15, Val 16, Val 17, Val 18, Val 19] blank10 =
     (Inr (),
      blank10\<lparr>ndarray := Some \<lparr>ndtype = Float64, nshape = [10],
                   ndata = [NaN, NaN, NaN, NaN, NaN, Val 15, Val 16, Val 17, Val 18, Val 19]\<rparr>,
               synced_index := Some 9\<rparr>) \<and>
   get_changes 9 (mark_saved 3 line10) = (Inr None, mark_saved 3 line10)"
proof -
  let ?p = "mark_saved 3 line10"
  let ?bp = "\<lparr>ndtype = Float64, nshape = [10],
      ndata = [Val 10, Val 11, Val 12, Val 13, Val 14,
               Val 15, Val 16, Val 17, Val 18, Val (19::int)]\<rparr>"
  let ?bc = "\<lparr>ndtype = Float64, nshape = [10],
      ndata = [NaN, NaN, NaN, NaN, NaN, NaN, NaN, NaN, NaN, NaN :: int cell]\<rparr>"
  have s: "last_saved_index ?p = Some 3" and r: "modified_range ?p = Some (4, 9)"
    by (simp_all add: mark_saved_def line10_def)
  have m: "change_mark ?p = 9"
    by (simp add: change_mark_def s r)
  have h: "ndarray ?p = Some ?bp \<and> nd_wf ?bp \<and> ndarray blank10 = Some ?bc \<and> nd_wf ?bc \<and>
      nshape ?bc = nshape ?bp \<and> 4 < change_mark ?p \<and> - 1 \<le> (4::int) \<and>
      change_mark ?p < int (nd_size ?bp) \<and>
      list_all (\<lambda>i. as_given FromScalar (ndtype ?bc) (ndata ?bp ! nat i) =
                      Inr (ndata ?bp ! nat i)) [4 + 1..change_mark ?p]"
  proof -
    have "ndarray ?p = Some ?bp" and "ndarray blank10 = Some ?bc"
      by (simp_all add: mark_saved_def line10_def blank10_def)
    moreover have "nd_wf ?bp" and "nd_wf ?bc" and "nd_size ?bp = 10"
      by (simp_all add: nd_wf_def nd_size_def)
    ultimately show ?thesis
      by (simp add: m as_given_def list_all_iff)
  qed
  have v: "map (\<lambda>i. ndata ?bp ! nat i) [4 + 1..9] = [Val 15, Val 16, Val 17, Val 18, Val 19]"
    by (simp add: upto_rec1 [of 5 9] upto_rec1 [of 6 9] upto_rec1 [of 7 9] upto_rec1 [of 8 9])
  from sync_round_trip [of ?p ?bp blank10 ?bc 4 as_given, THEN conjunct1, THEN mp, OF h]
  have "get_changes 4 ?p =
      (Inr (Some \<lparr>start = 5, stop = 9, vals = [Val 15, Val 16, Val 17, Val 18, Val 19]\<rparr>), ?p) \<and>
    apply_changes as_given 5 9 [Val 15, Val 16, Val 17, Val 18, Val 19] blank10 =
     (Inr (),
      blank10\<lparr>ndarray := Some \<lparr>ndtype = Float64, nshape = [10],
                   ndata = [NaN, NaN, NaN, NaN, NaN, Val 15, Val 16, Val 17, Val 18, Val 19]\<rparr>,
               synced_index := Some 9\<rparr>)"
    unfolding m v by auto
  moreover have "get_changes 9 ?p = (Inr None, ?p)"
    using sync_round_trip [of ?p ?bp blank10 ?bc 9 as_given, THEN conjunct2, THEN conjunct1] m
    by simp
  ultimately show ?thesis
    using s r m by simp
qed

subsection \<open>The invariant of the unsaved range\<close>













lemma update_modified_range_buffer [simp]:
  "ndarray (update_modified_range lo hi a) = ndarray a"
  by (simp add: update_modified_range_def split: option.splits)

text \<open>
  The outcomes of an item write: it raises while it resolves its indices and changes
  nothing; or it has recorded the two flat indices in the range and then finds no buffer,
  or ends with what the assignment to the buffer gives.
\<close>

lemma setitem_outcome:
  assumes "setitem conv li v a = (r, a')"
  shows "(a' = a \<and> (\<exists>e. r = Inl e)) \<or>
     (\<exists>bs mins maxs lo hi.
        index_bounds (shape a) 0 (as_list li) = Inr bs \<and>
        min_indices a = Some mins \<and> max_indices a = Some maxs \<and>
        flat_index a (map fst bs) mins = Inr lo \<and>
        flat_index a (map snd bs) maxs = Inr hi \<and>
        ndarray a = None \<and> a' = update_modified_range lo hi a \<and> r = Inl AttributeError) \<or>
     (\<exists>bs mins maxs lo hi b b'.
        index_bounds (shape a) 0 (as_list li) = Inr bs \<and>
        min_indices a = Some mins \<and> max_indices a = Some maxs \<and>
        flat_index a (map fst bs) mins = Inr lo \<and>
        flat_index a (map snd bs) maxs = Inr hi \<and>
        ndarray a = Some b \<and> nd_setitem conv (as_list li) v b = (r, b') \<and>
        a' = (update_modified_range lo hi a)\<lparr>ndarray := Some b'\<rparr>)"
  using assms
  by (auto simp: setitem_def Let_def
      split: sum.splits option.splits prod.splits)





















lemma snd_failure [simp]: "snd (failure r) = snd r"
  by (simp add: failure_def split: prod.splits sum.splits)

lemma fst_failure:
  "fst (failure r) = (case fst r of Inl e \<Rightarrow> Some e | Inr v \<Rightarrow> None)"
  by (simp add: failure_def split: prod.splits sum.splits)




subsection \<open>The range covers the positions that are written\<close>








lemma setitem_unresolved:
  "flat_bounds li a = Inl e \<Longrightarrow> setitem conv li v a = (Inl e, a)"
  by (auto simp: flat_bounds_def setitem_def split: sum.splits option.splits)

lemma setitem_resolved:
  "flat_bounds li a = Inr (lo, hi) \<Longrightarrow>
   setitem conv li v a =
     (case ndarray a of
        None \<Rightarrow> (Inl AttributeError, update_modified_range lo hi a)
      | Some b \<Rightarrow>
          (case nd_setitem conv (as_list li) v b of
             (r, b') \<Rightarrow> (r, (update_modified_range lo hi a)\<lparr>ndarray := Some b'\<rparr>)))"
  by (auto simp: flat_bounds_def setitem_def Let_def
      split: sum.splits option.splits prod.splits)

lemma covers_same_range: "modified_range a' = modified_range a \<Longrightarrow> covers a' U = covers a U"
  by (simp add: covers_def)


lemma covers_interval:
  "modified_range a = Some (lo, hi) \<Longrightarrow> lo \<le> 0 \<Longrightarrow> int n - 1 \<le> hi \<Longrightarrow> covers a {0..<n}"
  by (auto simp: covers_def)














subsection \<open>Operations that raise\<close>

lemma atomic_failure:
  assumes "atomic opn a" and "fst (exec conv opn a) = Some e"
  shows "snd (exec conv opn a) = a"
  using assms
  by (cases opn)
    (auto simp: failure_def init_data_def init_data_from_def clear_def nest_def Let_def
      get_synced_index_def get_changes_def np_ndarray_def
      split: sum.splits option.splits prod.splits if_splits)

lemma fold_store_outside:
  "p \<notin> set ps \<Longrightarrow> fold (\<lambda>q xs. xs[q := w]) ps xs ! p = xs ! p"
  by (induction ps arbitrary: xs) auto

text \<open>
  An assignment stores to the addressed positions only; and when it raises, it has
  stored nothing unless the value is an array that fits the region.
\<close>

lemma nd_setitem_outside:
  assumes "nd_setitem conv idxs v b = (r, b')" and "p \<notin> set (addressed idxs b)"
  shows "ndata b' ! p = ndata b ! p"
proof (cases "nd_select idxs (nshape b)")
  case (Inl e)
  with assms(1) show ?thesis
    by (simp add: nd_setitem_def)
next
  case (Inr sel)
  let ?offs = "nd_offsets (map snd sel) (nshape b)"
  from assms(2) Inr have p: "p \<notin> set ?offs"
    by (simp add: addressed_def)
  then have "p \<notin> fst ` set (zip ?offs vs)" for vs :: "'a cell list"
    by (auto dest: set_zip_leftD)
  with assms(1) Inr p show ?thesis
    by (auto simp: nd_setitem_def Let_def fold_store_outside
        split: option.splits npvalue.splits sum.splits prod.splits
        dest!: arg_cong [where f = snd] simp: store_cells_outside)
qed

lemma nd_setitem_unchanged:
  assumes "nd_setitem conv idxs v b = (Inl e, b')" and "(\<exists>c. v = Item c) \<or> \<not> fits idxs v b"
  shows "b' = b"
  using assms
  by (auto simp: nd_setitem_def fits_def Let_def
      split: option.splits npvalue.splits sum.splits prod.splits)

lemma setitem_unwritten:
  assumes fb: "flat_bounds li a = Inr (lo, hi)" and s: "setitem conv li v a = (Inl e, a')"
  shows "a' = (update_modified_range lo hi a)\<lparr>ndarray := ndarray a'\<rparr> \<and>
     (case ndarray a of
        None \<Rightarrow> ndarray a' = None
      | Some b \<Rightarrow>
          (\<exists>b'. ndarray a' = Some b' \<and> same_frame b b' \<and>
                ((\<exists>c. v = Item c) \<or> \<not> fits (as_list li) v b \<longrightarrow> b' = b) \<and>
                (\<forall>p. p \<notin> set (addressed (as_list li) b) \<longrightarrow> ndata b' ! p = ndata b ! p)))"
proof (cases "ndarray a")
  case None
  with fb s have "a' = update_modified_range lo hi a"
    by (simp add: setitem_resolved)
  with None show ?thesis
    by simp
next
  case (Some b)
  obtain r b' where w: "nd_setitem conv (as_list li) v b = (r, b')"
    by (cases "nd_setitem conv (as_list li) v b")
  with fb s Some have r: "r = Inl e"
    and a': "a' = (update_modified_range lo hi a)\<lparr>ndarray := Some b'\<rparr>"
    by (simp_all add: setitem_resolved)
  have "same_frame b b'"
    using nd_setitem_frame [of b conv "as_list li" v] w by simp
  moreover have "b' = b" if "(\<exists>c. v = Item c) \<or> \<not> fits (as_list li) v b"
    using w [unfolded r] that by (rule nd_setitem_unchanged)
  moreover have "ndata b' ! p = ndata b ! p" if "p \<notin> set (addressed (as_list li) b)" for p
    using w that by (rule nd_setitem_outside)
  ultimately show ?thesis
    using Some a' by simp
qed

lemma apply_changes_failure:
  assumes "apply_changes conv i j vs a = (Inl e, a')" and "\<forall>b. ndarray a = Some b \<longrightarrow> nd_wf b"
  shows "case ndarray a of
       None \<Rightarrow> a' = a
     | Some b \<Rightarrow>
         (\<exists>k ws. k < length vs \<and>
            convert_all (conv FromScalar (ndtype b)) (take k vs) = Inr ws \<and>
            a' = a\<lparr>ndarray := Some (b\<lparr>ndata := take (nat i) (ndata b) @ ws @
                                                 drop (nat i + k) (ndata b)\<rparr>)\<rparr> \<and>
            (i + int k < 0 \<or> int (nd_size b) \<le> i + int k \<or>
             conv FromScalar (ndtype b) (vs ! k) = Inl e))"
proof (cases "ndarray a")
  case None
  with assms(1) have "a' = a\<lparr>ndarray := None\<rparr>"
    by (cases vs) (auto simp: apply_changes_def split: prod.splits sum.splits)
  with None show ?thesis
    by simp
next
  case (Some b)
  with assms(2) have wf: "nd_wf b"
    by simp
  from assms(1) Some obtain nd where w: "write_flat conv i vs (Some b) = (Inl e, nd)"
    and a': "a' = a\<lparr>ndarray := nd\<rparr>"
    by (auto simp: apply_changes_def split: prod.splits sum.splits)
  from write_flat_failure [OF wf w] a' Some show ?thesis
    by auto
qed

text \<open>
  C4 as stated fails: \<open>__setitem__\<close> updates \<open>modified_range\<close> before it writes to the
  buffer. Assigning three values to the two positions of the slice 1:3 raises in the
  buffer write, and \<open>modified_range\<close>, empty before, is \<open>(1, 2)\<close> afterwards.
\<close>

theorem setitem_failure_widens_range:
  "fst (setitem as_given (Single (Slice (Some 1) (Some 3) None)) (vector [9, 9, 9]) blank4) =
     Inl ValueError \<and>
   modified_range blank4 = None \<and>
   modified_range
     (snd (setitem as_given (Single (Slice (Some 1) (Some 3) None)) (vector [9, 9, 9]) blank4)) =
     Some (1, 2)"
  by code_simp

text \<open>
  C4, amended. An operation that raises leaves the object exactly as it was when it is
  \<open>init_data\<close>, \<open>get_synced_index\<close>, \<open>get_changes\<close>, the \<open>nest\<close> of an array that is not
  preset, or a \<open>nest\<close> refused for its missing set array (\<open>mark_saved\<close> and \<open>clear_save\<close>
  never raise). An item write that raises while it resolves its indices to the two flat
  indices leaves the object as it was. One that raises after that has replaced
  \<open>modified_range\<close> by the covering interval of its former value and the two flat indices
  as the code computed them (\<open>update_modified_range\<close>), and has changed no other field
  than, possibly, the buffer: without a buffer there is none afterwards; a buffer keeps
  its element type, its shape and its number of elements, and its elements at the
  positions that are not addressed; it keeps all its elements when the value is a scalar
  or does not fit the addressed region (so that only an array one of whose elements has
  no conversion leaves elements stored). An \<open>apply_changes\<close> that raises on an array
  without a buffer leaves it as it was; on an array with a buffer it raises at the first
  value whose flat index is not one of the buffer or which has no conversion, the values
  before it are stored, converted, at their flat indices from the start on, and nothing
  else is changed, \<open>synced_index\<close> included.
\<close>

theorem failure_effects:
  "(atomic opn a \<and> fst (exec conv opn a) = Some e \<longrightarrow> snd (exec conv opn a) = a) \<and>
   (flat_bounds li a = Inl e \<longrightarrow> setitem conv li v a = (Inl e, a)) \<and>
   (flat_bounds li a = Inr (lo, hi) \<and> setitem conv li v a = (Inl e, a') \<longrightarrow>
      a' = (update_modified_range lo hi a)\<lparr>ndarray := ndarray a'\<rparr> \<and>
      (case ndarray a of
         None \<Rightarrow> ndarray a' = None
       | Some b \<Rightarrow>
           (\<exists>b'. ndarray a' = Some b' \<and> same_frame b b' \<and>
                 ((\<exists>c. v = Item c) \<or> \<not> fits (as_list li) v b \<longrightarrow> b' = b) \<and>
                 (\<forall>p. p \<notin> set (addressed (as_list li) b) \<longrightarrow>
                        ndata b' ! p = ndata b ! p)))) \<and>
   (apply_changes conv i j vs a = (Inl e, a') \<and> (\<forall>b. ndarray a = Some b \<longrightarrow> nd_wf b) \<longrightarrow>
      (case ndarray a of
         None \<Rightarrow> a' = a
       | Some b \<Rightarrow>
           (\<exists>k ws. k < length vs \<and>
              convert_all (conv FromScalar (ndtype b)) (take k vs) = Inr ws \<and>
              a' = a\<lparr>ndarray := Some (b\<lparr>ndata := take (nat i) (ndata b) @ ws @
                                                   drop (nat i + k) (ndata b)\<rparr>)\<rparr> \<and>
              (i + int k < 0 \<or> int (nd_size b) \<le> i + int k \<or>
               conv FromScalar (ndtype b) (vs ! k) = Inl e))))"
proof -
  have atom: "snd (exec conv opn a) = a" if "atomic opn a \<and> fst (exec conv opn a) = Some e"
    using that atomic_failure [of opn a conv e] by simp
  show ?thesis
    apply (rule conjI)
     apply (rule impI)
     apply (erule atom)
    apply (rule conjI)
     apply (rule impI)
     apply (erule setitem_unresolved)
    apply (rule conjI)
     apply (rule impI)
     apply (erule conjE)
     apply (erule (1) setitem_unwritten)
    apply (rule impI)
    apply (erule conjE)
    apply (erule (1) apply_changes_failure)
    done
qed

theorem failure_effects_witness:
  "atomic (Nest 3 None None) blank4 \<and>
   exec as_given (Nest 3 None None) blank4 = (Some RuntimeError, blank4) \<and>
   flat_bounds (Single (Slice (Some 1) (Some 3) None)) blank4 = Inr (1, 2) \<and>
   setitem as_given (Single (Slice (Some 1) (Some 3) None)) (vector [9, 9, 9]) blank4 =
     (Inl ValueError, update_modified_range 1 2 blank4) \<and>
   apply_changes as_given 3 6 [Val 1, Val 2, Val 3, Val 4] blank23 =
     (Inl ValueError,
      blank23\<lparr>ndarray := Some \<lparr>ndtype = Float64, nshape = [2, 3],
                                   ndata = [NaN, NaN, NaN, Val 1, Val 2, Val 3]\<rparr>\<rparr>)"
proof -
  let ?li = "Single (Slice (Some 1) (Some 3) None)"
  let ?b = "\<lparr>ndtype = Float64, nshape = [4], ndata = [NaN, NaN, NaN, NaN :: int cell]\<rparr>"
  have a: "atomic (Nest 3 None None) blank4"
    by code_simp
  have f: "fst (exec as_given (Nest 3 None None) blank4) = Some RuntimeError"
    by code_simp
  have "snd (exec as_given (Nest 3 None None) blank4) = blank4"
    using failure_effects [of "Nest 3 None None" blank4 as_given RuntimeError, THEN conjunct1] a f
    by simp
  with f have n: "exec as_given (Nest 3 None None) blank4 = (Some RuntimeError, blank4)"
    by (simp add: prod_eq_iff)
  have fb: "flat_bounds ?li blank4 = Inr (1, 2)"
    by code_simp
  have fs: "fst (setitem as_given ?li (vector [9, 9, 9]) blank4) = Inl ValueError"
    by code_simp
  define a' where "a' = snd (setitem as_given ?li (vector [9, 9, 9]) blank4)"
  have sa: "setitem as_given ?li (vector [9, 9, 9]) blank4 = (Inl ValueError, a')"
    using fs by (simp add: a'_def prod_eq_iff)
  have nb: "ndarray blank4 = Some ?b"
    by (simp add: blank4_def)
  have nf: "\<not> fits (as_list ?li) (vector [9, 9, 9]) ?b"
    by code_simp
  from failure_effects [where conv = as_given and li = ?li and a = blank4 and lo = 1 and hi = 2
      and v = "vector [9, 9, 9]" and e = ValueError and a' = a',
      THEN conjunct2, THEN conjunct2, THEN conjunct1, THEN mp, OF conjI [OF fb sa]]
  have "a' = (update_modified_range 1 2 blank4)\<lparr>ndarray := ndarray a'\<rparr>"
    and "\<exists>b'. ndarray a' = Some b' \<and> (\<not> fits (as_list ?li) (vector [9, 9, 9]) ?b \<longrightarrow> b' = ?b)"
    by (auto simp: nb)
  with nf nb have "a' = (update_modified_range 1 2 blank4)\<lparr>ndarray := ndarray blank4\<rparr>"
    by auto
  then have "a' = update_modified_range 1 2 blank4"
    by (simp add: update_modified_range_def blank4_def)
  with sa have s: "setitem as_given ?li (vector [9, 9, 9]) blank4 =
     (Inl ValueError, update_modified_range 1 2 blank4)"
    by simp
  have c: "apply_changes as_given 3 6 [Val 1, Val 2, Val 3, Val 4] blank23 =
     (Inl ValueError,
      blank23\<lparr>ndarray := Some \<lparr>ndtype = Float64, nshape = [2, 3],
                                   ndata = [NaN, NaN, NaN, Val 1, Val 2, Val 3]\<rparr>\<rparr>)"
    by code_simp
  from a n fb s c show ?thesis
    by simp
qed

text \<open>
  The nesting of a preset array is the other operation that raises after it has changed
  the object: a negative size is refused by the allocation, after \<open>shape\<close> and
  \<open>set_arrays\<close> were extended.
\<close>

lemma nest_negative_size:
  "nest as_given (- 1) None None preset3 =
     (Inl ValueError, preset3\<lparr>shape := [- 1, 3], set_arrays := [4]\<rparr>)"
  by code_simp

subsection \<open>Writing items\<close>

text \<open>
  For a slice that runs forwards and selects a position, the two entries that
  \<open>__setitem__\<close> computes are the first and the last position the slice visits.
\<close>

lemma forward_slice_positions:
  assumes "0 < step" and "first < bound"
  shows "slice_positions first bound step \<noteq> [] \<and>
     hd (slice_positions first bound step) = first \<and>
     last (slice_positions first bound step) = first + ((bound - first - 1) div step) * step"
proof -
  let ?q = "(bound - first - 1) div step"
  have q: "0 \<le> ?q"
    using assms by (simp add: pos_imp_zdiv_nonneg_iff)
  then have n: "slice_length first bound step = Suc (nat ?q)"
    using assms by (simp add: slice_length_def nat_add_distrib)
  have "slice_positions first bound step =
      map (\<lambda>k. first + int k * step) [0..<nat ?q] @ [first + int (nat ?q) * step]"
    by (simp add: slice_positions_def n)
  moreover have "hd (slice_positions first bound step) = first"
    by (simp add: slice_positions_def n upt_conv_Cons hd_map del: upt_Suc)
  ultimately show ?thesis
    using q by simp
qed

text \<open>
  An item write that returns has recorded the covering interval of the former range and
  the flat indices of the two index lists.
\<close>

lemma setitem_success_range:
  assumes "setitem conv li v a = (Inr (), a')"
  shows "\<exists>bs mins maxs lo hi.
     index_bounds (shape a) 0 (as_list li) = Inr bs \<and>
     min_indices a = Some mins \<and> max_indices a = Some maxs \<and>
     flat_index a (map fst bs) mins = Inr lo \<and>
     flat_index a (map snd bs) maxs = Inr hi \<and>
     modified_range a' =
       Some (case modified_range a of None \<Rightarrow> (lo, hi) | Some (l, h) \<Rightarrow> (min l lo, max h hi))"
  using setitem_outcome [OF assms]
  by (auto simp: update_modified_range_def split: option.splits)

text \<open>The two examples of the specification: a single element, and a forward slice.\<close>

lemma setitem_examples:
  "modified_range (snd (setitem as_given (Tuple [Idx 1, Idx 2]) (scalar 7) blank23)) =
     Some (5, 5) \<and>
   modified_range
     (snd (setitem as_given (Single (Slice (Some 1) (Some 3) None)) (vector [9, 9]) blank4)) =
     Some (1, 2)"
  by code_simp

text \<open>
  C3 holds for forward slices and fails for a slice that runs backwards: the upper entry
  \<open>start + ((stop - start - 1) // step) * step\<close> is the last visited position only for a
  positive step. On an array of four elements the write through \<open>3:1:-1\<close> visits the
  positions 3 and 2 and returns, and \<open>modified_range\<close>, empty before, is \<open>(3, 0)\<close>: its
  lower bound above its upper bound, and the written position 2 outside.
\<close>

theorem setitem_backward_slice:
  "slice_indices (Some 3) (Some 1) (Some (- 1)) 4 = Inr (3, 1, - 1) \<and>
   slice_positions 3 1 (- 1) = [3, 2] \<and>
   flat_bounds (Single (Slice (Some 3) (Some 1) (Some (- 1)))) blank4 = Inr (3, 0) \<and>
   setitem as_given (Single (Slice (Some 3) (Some 1) (Some (- 1)))) (scalar 5) blank4 =
     (Inr (),
      blank4\<lparr>modified_range := Some (3, 0),
             ndarray := Some \<lparr>ndtype = Float64, nshape = [4],
                               ndata = [NaN, NaN, Val 5, Val 5]\<rparr>\<rparr>)"
  by code_simp

end
